theory Spec2Isabelle
  imports Main
begin

section \<open>The interface to the browser-automation library and the scenario runner\<close>

text \<open>
  The repository is glue code: every step definition and hook is a short sequence of calls
  into Playwright and cucumber-js. The embedding keeps the glue as it is written and makes
  the two libraries a parameter: a \<^emph>\<open>driver\<close> answers each call with a value or an error and
  moves its own opaque state. Every call and its answer is appended to a trace, so that
  what a routine asked of the browser, and in which order, can be stated.
\<close>

text \<open>The \<open>name\<close> option of \<open>getByRole\<close>: a string, or \<open>new RegExp(source, flags)\<close>.\<close>

datatype name_pat = Str string | RegExp string string

text \<open>
  The options object of \<open>getByRole\<close>. A \<open>name\<close> that is absent or \<open>undefined\<close> is \<open>None\<close>;
  \<open>exact\<close> is false where the source leaves it out.
\<close>

record role_options =
  name :: "name_pat option"
  exact :: bool

datatype locator =
    Locator string
  | GetByRole string role_options
  | LocGetByRole locator string role_options

text \<open>JavaScript values that cross the interface; \<open>VObj\<close> is a handle to a library object.\<close>

datatype val = VUndefined | VNull | VBool bool | VStr string | VObj nat

datatype error =
    TypeError
  | SyntaxError
  | ExpectError
  | LibraryError string

text \<open>
  The calls. The first argument of a method call is the handle of the receiver
  (browser, context or page). \<open>CucumberSetDefaultTimeout\<close> is the function
  \<open>setDefaultTimeout\<close> of cucumber-js, \<open>SetDefaultTimeout\<close> the method of a page.
\<close>

datatype call =
    CucumberSetDefaultTimeout int
  | Launch bool int
  | NewContext nat int int bool
  | NewPage nat
  | SetDefaultTimeout nat int
  | Goto nat string
  | IsVisible nat locator
  | Click nat locator
  | Hover nat locator
  | Focus nat locator
  | GetAttribute nat locator string
  | WaitForTimeout nat int
  | WaitForLoadState nat string
  | Url nat
  | Title nat
  | ExpectToBeVisible nat locator
  | ExpectToHaveAttribute nat locator string string
  | ExpectToBeFocused nat locator
  | Screenshot nat string bool
  | Attach val string
  | ClosePage nat
  | CloseContext nat
  | CloseBrowser nat

type_synonym 'b driver = "call \<Rightarrow> 'b \<Rightarrow> (error + val) \<times> 'b"

text \<open>
  The state a routine runs in: the driver's state, the trace, the module-level variable
  \<open>browser\<close> of hooks.ts and the two fields of the scenario's World (world.ts).
\<close>

record 'b state =
  env :: 'b
  trace :: "(call \<times> (error + val)) list"
  browser :: val
  this_page :: val
  this_context :: val

type_synonym ('b, 'a) prog = "'b state \<Rightarrow> (error + 'a) \<times> 'b state"

definition perform :: "'b driver \<Rightarrow> call \<Rightarrow> ('b, val) prog" where
  "perform d c s =
     (case d c (env s) of
        (r, e') \<Rightarrow> (r, s\<lparr>env := e', trace := trace s @ [(c, r)]\<rparr>))"

text \<open>Sequencing: an error ends the routine, as a rejected \<open>await\<close> or a throw does.\<close>

definition bind :: "('b, 'a) prog \<Rightarrow> ('a \<Rightarrow> ('b, 'c) prog) \<Rightarrow> ('b, 'c) prog" where
  "bind m f s = (case m s of (Inl e, s') \<Rightarrow> (Inl e, s') | (Inr x, s') \<Rightarrow> f x s')"

definition return :: "'a \<Rightarrow> ('b, 'a) prog" where
  "return x s = (Inr x, s)"

definition throw :: "error \<Rightarrow> ('b, 'a) prog" where
  "throw e s = (Inl e, s)"

text \<open>
  Reading \<open>this.page\<close> to call a method on it: a receiver that is not an object (the
  field is \<open>undefined\<close> until the Before hook assigns it) raises a TypeError. No step
  assigns the field, so the receiver of every call of a step is the one read first.
\<close>

definition with_page :: "(nat \<Rightarrow> ('b, 'a) prog) \<Rightarrow> ('b, 'a) prog" where
  "with_page f s = (case this_page s of VObj p \<Rightarrow> f p s | _ \<Rightarrow> (Inl TypeError, s))"

text \<open>\<open>.catch(() => false)\<close> on a promise.\<close>

definition catch_false :: "('b, val) prog \<Rightarrow> ('b, val) prog" where
  "catch_false m s =
     (case m s of (Inl e, s') \<Rightarrow> (Inr (VBool False), s') | (Inr v, s') \<Rightarrow> (Inr v, s'))"

primrec for_each :: "('x \<Rightarrow> ('b, unit) prog) \<Rightarrow> 'x list \<Rightarrow> ('b, unit) prog" where
  "for_each body [] = return ()"
| "for_each body (x # xs) = bind (body x) (\<lambda>_. for_each body xs)"

text \<open>JavaScript truthiness, for \<open>if (isVisible)\<close>.\<close>

fun truthy :: "val \<Rightarrow> bool" where
  "truthy VUndefined = False"
| "truthy VNull = False"
| "truthy (VBool b) = b"
| "truthy (VStr s) = (s \<noteq> [])"
| "truthy (VObj h) = True"

subsection \<open>The matchers of \<open>expect\<close> that do not wait\<close>

text \<open>
  \<open>String.prototype.startsWith\<close> and \<open>String.prototype.includes\<close>: \<open>t\<close> occurs in \<open>s\<close>
  at the front, or somewhere as a contiguous substring.
\<close>

fun starts_with :: "string \<Rightarrow> string \<Rightarrow> bool" where
  "starts_with s [] = True"
| "starts_with [] (c # cs) = False"
| "starts_with (x # xs) (c # cs) = (x = c \<and> starts_with xs cs)"

fun str_includes :: "string \<Rightarrow> string \<Rightarrow> bool" where
  "str_includes [] t = (t = [])"
| "str_includes (c # cs) t = (starts_with (c # cs) t \<or> str_includes cs t)"

text \<open>\<open>expect(received).toBe(expected)\<close> compares with \<open>Object.is\<close>.\<close>

definition expect_toBe :: "val \<Rightarrow> val \<Rightarrow> ('b, unit) prog" where
  "expect_toBe received expected =
     (if received = expected then return () else throw ExpectError)"

text \<open>
  \<open>expect(received).toContain(expected)\<close> with a string expected: a received string must
  include it; \<open>null\<close>, \<open>undefined\<close> and values that are not iterable are a matcher error.
\<close>

definition expect_toContain :: "val \<Rightarrow> string \<Rightarrow> ('b, unit) prog" where
  "expect_toContain received expected =
     (case received of
        VStr s \<Rightarrow> if str_includes s expected then return () else throw ExpectError
      | _ \<Rightarrow> throw ExpectError)"

subsection \<open>Data tables\<close>

text \<open>
  \<open>dataTable.hashes()\<close>: one object per row below the header row, keyed by the header
  cells; a header cell that occurs twice keeps the value of its last column.
\<close>

type_synonym row = "(string \<times> string) list"

definition hashes :: "string list list \<Rightarrow> row list" where
  "hashes dataTable =
     (case dataTable of
        [] \<Rightarrow> []
      | keys # rows \<Rightarrow> map (\<lambda>values. rev (zip keys values)) rows)"

text \<open>\<open>row[key]\<close> as a value, and as the \<open>name\<close> option of a locator.\<close>

definition cell :: "row \<Rightarrow> string \<Rightarrow> val" where
  "cell r k = (case map_of r k of Some v \<Rightarrow> VStr v | None \<Rightarrow> VUndefined)"

definition cell_name :: "row \<Rightarrow> string \<Rightarrow> name_pat option" where
  "cell_name r k = map_option Str (map_of r k)"

section \<open>Step definitions (header.steps.ts)\<close>

text \<open>
  Loading the module: \<open>setDefaultTimeout(30000)\<close> hands cucumber-js the default timeout of
  steps and hooks, in milliseconds. It is the first statement of the module and the only
  one that is more than the registration of a step definition.
\<close>

definition load_step_definitions :: "'b driver \<Rightarrow> ('b, unit) prog" where
  "load_step_definitions d =
     bind (perform d (CucumberSetDefaultTimeout 30000)) (\<lambda>_. return ())"

definition header :: locator where
  "header = Locator ''#header''"

definition header_link_exact :: "string \<Rightarrow> locator" where
  "header_link_exact n = LocGetByRole header ''link'' \<lparr>name = Some (Str n), exact = True\<rparr>"

subsection \<open>Background steps\<close>

definition step_navigate :: "'b driver \<Rightarrow> ('b, unit) prog" where
  "step_navigate d =
     with_page (\<lambda>p.
       bind (perform d (Goto p ''https://www.kainos.com'')) (\<lambda>_. return ()))"

definition acceptCookiesButton :: locator where
  "acceptCookiesButton =
     GetByRole ''button'' \<lparr>name = Some (Str ''I Accept Cookies''), exact = False\<rparr>"

definition step_accept_cookies :: "'b driver \<Rightarrow> ('b, unit) prog" where
  "step_accept_cookies d =
     with_page (\<lambda>p.
       bind (catch_false (perform d (IsVisible p acceptCookiesButton))) (\<lambda>isVisible.
         if truthy isVisible then
           bind (perform d (Click p acceptCookiesButton)) (\<lambda>_.
           bind (perform d (WaitForTimeout p 1000)) (\<lambda>_. return ()))
         else return ()))"

subsection \<open>Logo verification steps\<close>

definition logo :: locator where
  \<open>logo = Locator ''#header img[alt="logo"]''\<close>

definition logoLink :: locator where
  "logoLink = LocGetByRole header ''link'' \<lparr>name = Some (RegExp ''logo'' ''i''), exact = False\<rparr>"

definition step_logo_visible :: "'b driver \<Rightarrow> ('b, unit) prog" where
  "step_logo_visible d =
     with_page (\<lambda>p. bind (perform d (ExpectToBeVisible p logo)) (\<lambda>_. return ()))"

definition step_logo_src :: "'b driver \<Rightarrow> ('b, unit) prog" where
  "step_logo_src d =
     with_page (\<lambda>p.
       bind (perform d (GetAttribute p logo ''src'')) (\<lambda>logoSrc.
         expect_toContain logoSrc ''/globalassets/images/5_logos/kainos_logo.png''))"

definition step_logo_link :: "'b driver \<Rightarrow> ('b, unit) prog" where
  "step_logo_link d =
     with_page (\<lambda>p.
       bind (perform d (ExpectToHaveAttribute p logoLink ''href'' ''/'')) (\<lambda>_. return ()))"

subsection \<open>Navigation menu steps\<close>

definition nav_item_row :: "'b driver \<Rightarrow> nat \<Rightarrow> row \<Rightarrow> ('b, unit) prog" where
  "nav_item_row d p r =
     (let navLink = LocGetByRole header ''link''
                      \<lparr>name = cell_name r ''Navigation Item'', exact = True\<rparr>
      in bind (perform d (ExpectToBeVisible p navLink)) (\<lambda>_.
         bind (perform d (GetAttribute p navLink ''href'')) (\<lambda>href.
           expect_toBe href (cell r ''URL''))))"

definition step_nav_items :: "'b driver \<Rightarrow> string list list \<Rightarrow> ('b, unit) prog" where
  "step_nav_items d dataTable =
     (let rows = hashes dataTable
      in for_each (\<lambda>row. with_page (\<lambda>p. nav_item_row d p row)) rows)"

subsection \<open>Right-side elements steps\<close>

text \<open>
  \<open>new RegExp(source, flags)\<close> is a constructor of the JavaScript engine: it returns the
  regular expression when source and flags are well formed and throws a SyntaxError when
  they are not. Which sources and flags the engine accepts is a parameter of the steps
  that call the constructor, as the libraries are; the grammar of ECMAScript is given with
  the reference drivers.
\<close>

type_synonym regexp_grammar = "string \<Rightarrow> string \<Rightarrow> bool"

definition new_RegExp :: "regexp_grammar \<Rightarrow> string \<Rightarrow> string \<Rightarrow> ('b, name_pat) prog" where
  "new_RegExp accepts source flags =
     (if accepts source flags then return (RegExp source flags) else throw SyntaxError)"

text \<open>
  A method call on \<open>this.page\<close> whose arguments have to be evaluated: the method is read
  off the receiver first, which raises a TypeError when the receiver is \<open>undefined\<close> or
  \<open>null\<close>; then the arguments are evaluated; then the method is called, which raises a
  TypeError when the receiver is a value without such a method. So with a page in the
  World the constructor runs before any call is made.
\<close>

definition with_page_then ::
  "('b, 'x) prog \<Rightarrow> (nat \<Rightarrow> 'x \<Rightarrow> ('b, 'a) prog) \<Rightarrow> ('b, 'a) prog" where
  "with_page_then arguments f s =
     (case this_page s of
        VUndefined \<Rightarrow> (Inl TypeError, s)
      | VNull \<Rightarrow> (Inl TypeError, s)
      | VObj p \<Rightarrow> bind arguments (f p) s
      | _ \<Rightarrow> bind arguments (\<lambda>_. throw TypeError) s)"

definition step_button_visible ::
  "regexp_grammar \<Rightarrow> 'b driver \<Rightarrow> string \<Rightarrow> ('b, unit) prog" where
  "step_button_visible js d buttonName =
     with_page_then (new_RegExp js buttonName ''i'') (\<lambda>p re.
       bind (perform d (ExpectToBeVisible p
               (GetByRole ''button'' \<lparr>name = Some re, exact = False\<rparr>)))
         (\<lambda>_. return ()))"

definition step_link_visible ::
  "regexp_grammar \<Rightarrow> 'b driver \<Rightarrow> string \<Rightarrow> ('b, unit) prog" where
  "step_link_visible js d linkName =
     with_page_then (new_RegExp js linkName ''i'') (\<lambda>p re.
       bind (perform d (ExpectToBeVisible p
               (GetByRole ''link'' \<lparr>name = Some re, exact = False\<rparr>)))
         (\<lambda>_. return ()))"

definition step_link_points_to ::
  "regexp_grammar \<Rightarrow> 'b driver \<Rightarrow> string \<Rightarrow> string \<Rightarrow> ('b, unit) prog" where
  "step_link_points_to js d linkName url =
     with_page_then (new_RegExp js linkName ''i'') (\<lambda>p re.
       bind (perform d (ExpectToHaveAttribute p
               (GetByRole ''link'' \<lparr>name = Some re, exact = False\<rparr>) ''href'' url))
         (\<lambda>_. return ()))"

subsection \<open>Dropdown menu steps\<close>

definition step_hover_nav_item :: "'b driver \<Rightarrow> string \<Rightarrow> ('b, unit) prog" where
  "step_hover_nav_item d navItem =
     with_page (\<lambda>p.
       bind (perform d (Hover p (header_link_exact navItem))) (\<lambda>_.
       bind (perform d (WaitForTimeout p 500)) (\<lambda>_. return ())))"

definition dropdown_row :: "'b driver \<Rightarrow> string \<Rightarrow> nat \<Rightarrow> row \<Rightarrow> ('b, unit) prog" where
  "dropdown_row d column p r =
     bind (perform d (ExpectToBeVisible p
             (GetByRole ''link'' \<lparr>name = cell_name r column, exact = False\<rparr>)))
       (\<lambda>_. return ())"

definition step_services_visible :: "'b driver \<Rightarrow> string list list \<Rightarrow> ('b, unit) prog" where
  "step_services_visible d dataTable =
     (let services = hashes dataTable
      in for_each (\<lambda>service. with_page (\<lambda>p. dropdown_row d ''Service'' p service)) services)"

definition step_impacts_visible :: "'b driver \<Rightarrow> string list list \<Rightarrow> ('b, unit) prog" where
  "step_impacts_visible d dataTable =
     (let impacts = hashes dataTable
      in for_each (\<lambda>impact. with_page (\<lambda>p. dropdown_row d ''Impact'' p impact)) impacts)"

subsection \<open>Navigation functionality steps\<close>

definition step_click_nav_item :: "'b driver \<Rightarrow> string \<Rightarrow> ('b, unit) prog" where
  "step_click_nav_item d navItem =
     with_page (\<lambda>p.
       bind (perform d (Click p (header_link_exact navItem))) (\<lambda>_.
       bind (perform d (WaitForLoadState p ''domcontentloaded'')) (\<lambda>_. return ())))"

definition step_click_link :: "'b driver \<Rightarrow> string \<Rightarrow> ('b, unit) prog" where
  "step_click_link d linkText =
     with_page (\<lambda>p.
       bind (perform d (Click p (header_link_exact linkText))) (\<lambda>_.
       bind (perform d (WaitForLoadState p ''domcontentloaded'')) (\<lambda>_. return ())))"

definition step_navigated_to :: "'b driver \<Rightarrow> string \<Rightarrow> ('b, unit) prog" where
  "step_navigated_to d url =
     with_page (\<lambda>p.
       bind (perform d (Url p)) (\<lambda>currentUrl. expect_toContain currentUrl url))"

definition step_title_contains :: "'b driver \<Rightarrow> string \<Rightarrow> ('b, unit) prog" where
  "step_title_contains d titleText =
     with_page (\<lambda>p.
       bind (perform d (Title p)) (\<lambda>title. expect_toContain title titleText))"

subsection \<open>Accessibility steps\<close>

definition navLinks :: "locator list" where
  "navLinks =
     [header_link_exact ''Digital Services'',
      header_link_exact ''Workday'',
      header_link_exact ''Industries'']"

definition focus_link :: "'b driver \<Rightarrow> nat \<Rightarrow> locator \<Rightarrow> ('b, unit) prog" where
  "focus_link d p link =
     bind (perform d (Focus p link)) (\<lambda>_.
     bind (perform d (ExpectToBeFocused p link)) (\<lambda>_. return ()))"

definition step_keyboard_accessible :: "'b driver \<Rightarrow> ('b, unit) prog" where
  "step_keyboard_accessible d = with_page (\<lambda>p. for_each (focus_link d p) navLinks)"

definition banner :: locator where
  \<open>banner = Locator ''header, [role="banner"]''\<close>

definition step_aria_landmarks :: "'b driver \<Rightarrow> ('b, unit) prog" where
  "step_aria_landmarks d =
     with_page (\<lambda>p. bind (perform d (ExpectToBeVisible p banner)) (\<lambda>_. return ()))"

subsection \<open>The registry of step definitions\<close>

datatype step =
    NavigateToHomepage
  | AcceptCookieConsent
  | LogoVisible
  | LogoSrc
  | LogoLink
  | NavItemsVisible "string list list"
  | ButtonVisible string
  | LinkVisible string
  | LinkPointsTo string string
  | HoverNavItem string
  | ServicesVisible "string list list"
  | ImpactsVisible "string list list"
  | ClickNavItem string
  | ClickLink string
  | NavigatedTo string
  | TitleContains string
  | KeyboardAccessible
  | AriaLandmarks

fun run_step :: "regexp_grammar \<Rightarrow> 'b driver \<Rightarrow> step \<Rightarrow> ('b, unit) prog" where
  "run_step js d NavigateToHomepage = step_navigate d"
| "run_step js d AcceptCookieConsent = step_accept_cookies d"
| "run_step js d LogoVisible = step_logo_visible d"
| "run_step js d LogoSrc = step_logo_src d"
| "run_step js d LogoLink = step_logo_link d"
| "run_step js d (NavItemsVisible t) = step_nav_items d t"
| "run_step js d (ButtonVisible n) = step_button_visible js d n"
| "run_step js d (LinkVisible n) = step_link_visible js d n"
| "run_step js d (LinkPointsTo n u) = step_link_points_to js d n u"
| "run_step js d (HoverNavItem n) = step_hover_nav_item d n"
| "run_step js d (ServicesVisible t) = step_services_visible d t"
| "run_step js d (ImpactsVisible t) = step_impacts_visible d t"
| "run_step js d (ClickNavItem n) = step_click_nav_item d n"
| "run_step js d (ClickLink n) = step_click_link d n"
| "run_step js d (NavigatedTo u) = step_navigated_to d u"
| "run_step js d (TitleContains t) = step_title_contains d t"
| "run_step js d KeyboardAccessible = step_keyboard_accessible d"
| "run_step js d AriaLandmarks = step_aria_landmarks d"

section \<open>Hooks (hooks.ts)\<close>

datatype status = UNKNOWN | PASSED | SKIPPED | PENDING | UNDEFINED | AMBIGUOUS | FAILED

text \<open>
  \<open>BeforeAll\<close>. The argument is \<open>process.env.HEADLESS\<close>, \<open>None\<close> when the variable is
  not set. The browser is stored in the module-level variable.
\<close>

definition BeforeAll :: "'b driver \<Rightarrow> string option \<Rightarrow> ('b, unit) prog" where
  "BeforeAll d HEADLESS =
     (let headless = (HEADLESS \<noteq> Some ''false'')
      in bind (perform d (Launch headless (if headless then 0 else 100))) (\<lambda>b s.
           (Inr (), s\<lparr>browser := b\<rparr>)))"

text \<open>A method call on a value that is not an object raises a TypeError.\<close>

definition call_method :: "'b driver \<Rightarrow> val \<Rightarrow> (nat \<Rightarrow> call) \<Rightarrow> ('b, val) prog" where
  "call_method d receiver c =
     (case receiver of VObj h \<Rightarrow> perform d (c h) | _ \<Rightarrow> throw TypeError)"

text \<open>\<open>receiver?.m()\<close>: nothing is called on \<open>undefined\<close> or \<open>null\<close>.\<close>

definition optional_method :: "'b driver \<Rightarrow> val \<Rightarrow> (nat \<Rightarrow> call) \<Rightarrow> ('b, val) prog" where
  "optional_method d receiver c =
     (case receiver of
        VUndefined \<Rightarrow> return VUndefined
      | VNull \<Rightarrow> return VUndefined
      | _ \<Rightarrow> call_method d receiver c)"

definition Before :: "'b driver \<Rightarrow> ('b, unit) prog" where
  "Before d =
     bind (\<lambda>s. call_method d (browser s) (\<lambda>b. NewContext b 1920 1080 True) s) (\<lambda>c.
     bind (\<lambda>s. (Inr (), s\<lparr>this_context := c\<rparr>)) (\<lambda>_.
     bind (\<lambda>s. call_method d (this_context s) NewPage s) (\<lambda>p.
     bind (\<lambda>s. (Inr (), s\<lparr>this_page := p\<rparr>)) (\<lambda>_.
     bind (\<lambda>s. call_method d (this_page s) (\<lambda>p. SetDefaultTimeout p 30000) s) (\<lambda>_.
       return ())))))"

subsection \<open>The name of the screenshot\<close>

text \<open>
  Strings are lists of code units below 256; of these, the class \<open>\s\<close> of a JavaScript
  regular expression holds tab, line feed, vertical tab, form feed, carriage return,
  space and the no-break space.
\<close>

definition is_space :: "char \<Rightarrow> bool" where
  "is_space c =
     (c \<in> set [CHR 0x09, CHR 0x0A, CHR 0x0B, CHR 0x0C, CHR 0x0D, CHR 0x20, CHR 0xA0])"

text \<open>\<open>.replace(/\s+/g, '_')\<close>: every maximal run of whitespace becomes one underscore.\<close>

function replace_whitespace :: "string \<Rightarrow> string" where
  "replace_whitespace [] = []"
| "replace_whitespace (c # cs) =
     (if is_space c then CHR ''_'' # replace_whitespace (dropWhile is_space cs)
      else c # replace_whitespace cs)"
  by pat_completeness auto
termination
  by (relation "measure length") (auto simp: less_Suc_eq_le length_dropWhile_le)

text \<open>The decimal digits of a number, as template interpolation writes \<open>Date.now()\<close>.\<close>

function number_to_string :: "int \<Rightarrow> string" where
  "number_to_string n =
     (if n < 0 then CHR ''-'' # number_to_string (- n)
      else if n < 10 then [''0123456789'' ! nat n]
      else number_to_string (n div 10) @ [''0123456789'' ! nat (n mod 10)])"
  by pat_completeness auto
termination
  by (relation "measure (\<lambda>n. if n < 0 then Suc (nat (- n)) else nat n)") auto

declare number_to_string.simps [simp del]

definition screenshot_path :: "string \<Rightarrow> int \<Rightarrow> string" where
  "screenshot_path pickle_name now =
     ''./screenshots/'' @ replace_whitespace pickle_name @ ''_'' @ number_to_string now @ ''.png''"

subsection \<open>After and AfterAll\<close>

text \<open>
  \<open>After\<close>. \<open>clock\<close> reads \<open>Date.now()\<close> off the environment; \<open>result\<close> is the status of the
  scenario's result, \<open>None\<close> when there is no result (\<open>result?.status\<close>). The page is
  read without \<open>?.\<close> for the screenshot and with it for the close. \<open>this.attach\<close> is
  called without \<open>await\<close>; what it throws while it is called ends the hook.
\<close>

definition After ::
  "'b driver \<Rightarrow> ('b \<Rightarrow> int) \<Rightarrow> string \<Rightarrow> status option \<Rightarrow> ('b, unit) prog" where
  "After d clock pickle_name result =
     bind (if result = Some FAILED then
             bind (\<lambda>s. call_method d (this_page s)
                     (\<lambda>p. Screenshot p (screenshot_path pickle_name (clock (env s))) True) s)
               (\<lambda>screenshot.
             bind (perform d (Attach screenshot ''image/png'')) (\<lambda>_. return ()))
           else return ()) (\<lambda>_.
     bind (\<lambda>s. optional_method d (this_page s) ClosePage s) (\<lambda>_.
     bind (\<lambda>s. optional_method d (this_context s) CloseContext s) (\<lambda>_.
       return ())))"

definition AfterAll :: "'b driver \<Rightarrow> ('b, unit) prog" where
  "AfterAll d =
     bind (\<lambda>s. optional_method d (browser s) CloseBrowser s) (\<lambda>_. return ())"

section \<open>Configuration (cucumber.js)\<close>

text \<open>\<open>parallel: 1\<close>: the number of workers that run scenarios.\<close>

definition parallel :: nat where
  "parallel = 1"

section \<open>The runner\<close>

text \<open>
  The order in which cucumber-js calls the hooks and steps, as the repository's
  documentation gives it: BeforeAll, then for each scenario in turn Before, the steps and
  After, then AfterAll. A scenario gets a fresh World; its steps run in order and those
  after a failed step, or after a failed Before hook, are skipped. The After hook is
  handed the worst status of the scenario so far. The runner tells a hook that runs before
  the steps from one that runs after them by whether a step has been reached: in a
  scenario without steps the After hook therefore gets no result, and is skipped like a
  Before hook when the Before hook has failed.
\<close>

record pickle =
  pickle_name :: string
  pickle_steps :: "step list"

definition run_steps :: "regexp_grammar \<Rightarrow> 'b driver \<Rightarrow> step list \<Rightarrow> ('b, unit) prog" where
  "run_steps js d sts = for_each (run_step js d) sts"

definition status_of :: "error + unit \<Rightarrow> status" where
  "status_of r = (case r of Inl e \<Rightarrow> FAILED | Inr u \<Rightarrow> PASSED)"

definition run_scenario ::
  "regexp_grammar \<Rightarrow> 'b driver \<Rightarrow> ('b \<Rightarrow> int) \<Rightarrow> pickle \<Rightarrow> 'b state \<Rightarrow> status \<times> 'b state" where
  "run_scenario js d clock pk s =
     (case Before d (s\<lparr>this_page := VUndefined, this_context := VUndefined\<rparr>) of
        (before, s1) \<Rightarrow>
          if pickle_steps pk = [] then
            (case before of
               Inl e \<Rightarrow> (FAILED, s1)
             | Inr u \<Rightarrow>
                 (case After d clock (pickle_name pk) None s1 of
                    (after, s2) \<Rightarrow> (if isl after then FAILED else PASSED, s2)))
          else
            (case (case before of
                     Inl e \<Rightarrow> (Inl e, s1)
                   | Inr u \<Rightarrow> run_steps js d (pickle_steps pk) s1) of
               (steps, s2) \<Rightarrow>
                 (case After d clock (pickle_name pk) (Some (status_of steps)) s2 of
                    (after, s3) \<Rightarrow>
                      (if isl steps \<or> isl after then FAILED else PASSED, s3))))"

primrec run_scenarios ::
  "regexp_grammar \<Rightarrow> 'b driver \<Rightarrow> ('b \<Rightarrow> int) \<Rightarrow> pickle list \<Rightarrow> 'b state
     \<Rightarrow> status list \<times> 'b state" where
  "run_scenarios js d clock [] s = ([], s)"
| "run_scenarios js d clock (pk # pks) s =
     (case run_scenario js d clock pk s of
        (st, s1) \<Rightarrow>
          (case run_scenarios js d clock pks s1 of (sts, s2) \<Rightarrow> (st # sts, s2)))"

text \<open>
  One worker: it loads the support code, runs BeforeAll, the scenarios handed to it one
  after another, and AfterAll. When loading or the BeforeAll hook fails, nothing else is
  run.
\<close>

definition run_worker ::
  "regexp_grammar \<Rightarrow> 'b driver \<Rightarrow> ('b \<Rightarrow> int) \<Rightarrow> string option \<Rightarrow> pickle list \<Rightarrow> 'b state
     \<Rightarrow> status list option \<times> 'b state" where
  "run_worker js d clock HEADLESS pks s =
     (case load_step_definitions d s of
        (Inl e, s0) \<Rightarrow> (None, s0)
      | (Inr u, s0) \<Rightarrow>
          (case BeforeAll d HEADLESS s0 of
             (Inl e, s1) \<Rightarrow> (None, s1)
           | (Inr u, s1) \<Rightarrow>
               (case run_scenarios js d clock pks s1 of
                  (sts, s2) \<Rightarrow> (case AfterAll d s2 of (r, s3) \<Rightarrow> (Some sts, s3)))))"

text \<open>The state in which the modules are loaded: no browser, nothing called yet.\<close>

definition initial :: "'b \<Rightarrow> 'b state" where
  "initial e =
     \<lparr>env = e, trace = [], browser = VUndefined,
      this_page = VUndefined, this_context = VUndefined\<rparr>"

text \<open>
  The run. The scenarios go to as many workers as \<open>parallel\<close> says (one lane when it is
  0, which is the serial mode); each worker is a process of its own, with its own copy
  of the module variables, and gets its scenarios in the order of the run. Which worker
  takes which scenario depends on when the workers become idle: \<open>schedule\<close> gives the
  worker for each position. How the calls of several workers fall in time is not
  modelled; with one lane there is nothing to interleave.
\<close>

definition lanes :: nat where
  "lanes = (if parallel = 0 then 1 else parallel)"

definition assign :: "nat \<Rightarrow> (nat \<Rightarrow> nat) \<Rightarrow> 'a list \<Rightarrow> 'a list list" where
  "assign n schedule xs =
     map (\<lambda>w. map snd (filter (\<lambda>(i, x). schedule i mod n = w) (enumerate 0 xs))) [0..<n]"

definition run ::
  "regexp_grammar \<Rightarrow> 'b driver \<Rightarrow> ('b \<Rightarrow> int) \<Rightarrow> string option \<Rightarrow> (nat \<Rightarrow> nat) \<Rightarrow>
     pickle list \<Rightarrow> 'b \<Rightarrow> (status list option \<times> 'b state) list" where
  "run js d clock HEADLESS schedule pks e =
     map (\<lambda>work. run_worker js d clock HEADLESS work (initial e)) (assign lanes schedule pks)"

section \<open>What a routine asks of the driver\<close>

text \<open>
  An expectation is a call together with the answers that let the routine go on. A list
  of trace entries \<open>follows\<close> a list of expectations with a given outcome when the calls
  are the expected ones in order, every answer but the last is a value that is accepted,
  and the routine ends with the first answer that is an error (which is then its outcome)
  or a value that is not accepted (the outcome is then the error of the matcher), having
  called nothing after it; with every answer accepted, the routine passes after the last
  expected call.
\<close>

type_synonym entry = "call \<times> (error + val)"

type_synonym expectation = "call \<times> (val \<Rightarrow> bool)"

fun follows :: "expectation list \<Rightarrow> entry list \<Rightarrow> error + unit \<Rightarrow> bool" where
  "follows [] new out = (new = [] \<and> out = Inr ())"
| "follows ((c, accept) # es) [] out = False"
| "follows ((c, accept) # es) ((c', r) # new) out =
     (c' = c \<and>
      (case r of
         Inl e \<Rightarrow> new = [] \<and> out = Inl e
       | Inr v \<Rightarrow> if accept v then follows es new out
                 else new = [] \<and> out = Inl ExpectError))"

text \<open>
  The frame of a routine: it appends entries to the trace and moves the driver's state;
  the browser variable and the World's page and context stay as they are.
\<close>

definition frame :: "'b state \<Rightarrow> 'b state \<Rightarrow> entry list \<Rightarrow> bool" where
  "frame s s' new =
     (trace s' = trace s @ new \<and> browser s' = browser s \<and>
      this_page s' = this_page s \<and> this_context s' = this_context s)"

definition realises :: "nat \<Rightarrow> ('b, unit) prog \<Rightarrow> expectation list \<Rightarrow> bool" where
  "realises p m es =
     (\<forall>s out s'. this_page s = VObj p \<longrightarrow> m s = (out, s') \<longrightarrow>
        (\<exists>new. frame s s' new \<and> follows es new out))"

definition anything :: "val \<Rightarrow> bool" where
  "anything v = True"

definition is_val :: "val \<Rightarrow> val \<Rightarrow> bool" where
  "is_val expected v = (v = expected)"

definition string_containing :: "string \<Rightarrow> val \<Rightarrow> bool" where
  "string_containing t v = (case v of VStr s \<Rightarrow> str_includes s t | _ \<Rightarrow> False)"

definition nav_item_script :: "nat \<Rightarrow> row \<Rightarrow> expectation list" where
  "nav_item_script p r =
     (let navLink = LocGetByRole header ''link''
                      \<lparr>name = cell_name r ''Navigation Item'', exact = True\<rparr>
      in [(ExpectToBeVisible p navLink, anything),
          (GetAttribute p navLink ''href'', is_val (cell r ''URL''))])"

definition dropdown_script :: "string \<Rightarrow> nat \<Rightarrow> row \<Rightarrow> expectation list" where
  "dropdown_script column p r =
     [(ExpectToBeVisible p (GetByRole ''link'' \<lparr>name = cell_name r column, exact = False\<rparr>),
       anything)]"

definition focus_script :: "nat \<Rightarrow> locator \<Rightarrow> expectation list" where
  "focus_script p link = [(Focus p link, anything), (ExpectToBeFocused p link, anything)]"

text \<open>
  The expectations of each step on page \<open>p\<close>. For the cookie step they are those of the
  path on which the banner is visible; for the steps that build a regular expression from
  their argument, those of an argument that the constructor accepts.
\<close>

fun script :: "nat \<Rightarrow> step \<Rightarrow> expectation list" where
  "script p NavigateToHomepage = [(Goto p ''https://www.kainos.com'', anything)]"
| "script p AcceptCookieConsent =
     [(IsVisible p acceptCookiesButton, truthy),
      (Click p acceptCookiesButton, anything),
      (WaitForTimeout p 1000, anything)]"
| "script p LogoVisible = [(ExpectToBeVisible p logo, anything)]"
| "script p LogoSrc =
     [(GetAttribute p logo ''src'',
       string_containing ''/globalassets/images/5_logos/kainos_logo.png'')]"
| "script p LogoLink = [(ExpectToHaveAttribute p logoLink ''href'' ''/'', anything)]"
| "script p (NavItemsVisible t) = concat (map (nav_item_script p) (hashes t))"
| "script p (ButtonVisible n) =
     [(ExpectToBeVisible p
         (GetByRole ''button'' \<lparr>name = Some (RegExp n ''i''), exact = False\<rparr>), anything)]"
| "script p (LinkVisible n) =
     [(ExpectToBeVisible p
         (GetByRole ''link'' \<lparr>name = Some (RegExp n ''i''), exact = False\<rparr>), anything)]"
| "script p (LinkPointsTo n u) =
     [(ExpectToHaveAttribute p
         (GetByRole ''link'' \<lparr>name = Some (RegExp n ''i''), exact = False\<rparr>) ''href'' u,
       anything)]"
| "script p (HoverNavItem n) =
     [(Hover p (header_link_exact n), anything), (WaitForTimeout p 500, anything)]"
| "script p (ServicesVisible t) = concat (map (dropdown_script ''Service'' p) (hashes t))"
| "script p (ImpactsVisible t) = concat (map (dropdown_script ''Impact'' p) (hashes t))"
| "script p (ClickNavItem n) =
     [(Click p (header_link_exact n), anything),
      (WaitForLoadState p ''domcontentloaded'', anything)]"
| "script p (ClickLink n) =
     [(Click p (header_link_exact n), anything),
      (WaitForLoadState p ''domcontentloaded'', anything)]"
| "script p (NavigatedTo u) = [(Url p, string_containing u)]"
| "script p (TitleContains t) = [(Title p, string_containing t)]"
| "script p KeyboardAccessible = concat (map (focus_script p) navLinks)"
| "script p AriaLandmarks = [(ExpectToBeVisible p banner, anything)]"

text \<open>Whether the engine accepts the regular expression a step builds from its argument.\<close>

fun accepted :: "regexp_grammar \<Rightarrow> step \<Rightarrow> bool" where
  "accepted js (ButtonVisible n) = js n ''i''"
| "accepted js (LinkVisible n) = js n ''i''"
| "accepted js (LinkPointsTo n u) = js n ''i''"
| "accepted js st = True"

text \<open>
  The calls a step may make on page \<open>p\<close>: a method of the page or of one of its locators,
  or an assertion on one. None of them creates or closes anything, and none sets a timeout.
\<close>

fun step_call :: "nat \<Rightarrow> call \<Rightarrow> bool" where
  "step_call p (Goto q u) = (q = p)"
| "step_call p (IsVisible q l) = (q = p)"
| "step_call p (Click q l) = (q = p)"
| "step_call p (Hover q l) = (q = p)"
| "step_call p (Focus q l) = (q = p)"
| "step_call p (GetAttribute q l a) = (q = p)"
| "step_call p (WaitForTimeout q t) = (q = p)"
| "step_call p (WaitForLoadState q st) = (q = p)"
| "step_call p (Url q) = (q = p)"
| "step_call p (Title q) = (q = p)"
| "step_call p (ExpectToBeVisible q l) = (q = p)"
| "step_call p (ExpectToHaveAttribute q l a v) = (q = p)"
| "step_call p (ExpectToBeFocused q l) = (q = p)"
| "step_call p c = False"

text \<open>
  The default timeout of page \<open>q\<close> that is in force after a trace: the one given with the
  last \<open>setDefaultTimeout\<close> on that page that returned, \<open>cur\<close> when there is none.
\<close>

definition sets_timeout :: "nat \<Rightarrow> entry \<Rightarrow> int option" where
  "sets_timeout q e =
     (case e of
        (SetDefaultTimeout q' t, Inr v) \<Rightarrow> if q' = q then Some t else None
      | _ \<Rightarrow> None)"

fun in_force :: "nat \<Rightarrow> int option \<Rightarrow> entry list \<Rightarrow> int option" where
  "in_force q cur [] = cur"
| "in_force q cur (e # es) =
     in_force q (case sets_timeout q e of Some t \<Rightarrow> Some t | None \<Rightarrow> cur) es"

text \<open>The cookie step on the path where the banner is visible, after the check.\<close>

definition accept_script :: "nat \<Rightarrow> expectation list" where
  "accept_script p =
     [(Click p acceptCookiesButton, anything), (WaitForTimeout p 1000, anything)]"

section \<open>Reference drivers\<close>

text \<open>
  Concrete drivers on which the routines can be run: a static page that answers the
  queries of the steps from a list of elements, and (further down) a driver that hands out
  object handles for the hooks. They stand in for the library on concrete inputs; the
  statements about the routines hold for every driver.
\<close>

subsection \<open>Regular expressions of ECMAScript\<close>

text \<open>
  \<open>new RegExp(source, flags)\<close> and \<open>test\<close> on its result, for the patterns of
  ECMAScript 2024 as an engine for the web reads them when neither of the flags \<open>u\<close> and
  \<open>v\<close> is given: alternatives, the quantifiers and their lazy forms, groups with and
  without capture or name, back references, look-ahead and look-behind, the assertions
  of the start and end of the text and of word boundaries, classes, and the escapes with
  their legacy forms.
  Strings are lists of code units below 256; a pattern can name code units up to 0xFFFF.
  The flags \<open>u\<close> and \<open>v\<close> and escapes inside a group name are left out: a source
  or flag that needs them counts as not accepted.
\<close>

definition backslash :: char where
  "backslash = CHR 0x5C"

text \<open>The code unit of a character, read off its bits (the first is the lowest).\<close>

fun code :: "char \<Rightarrow> int" where
  "code (Char b0 b1 b2 b3 b4 b5 b6 b7) =
     (if b0 then 1 else 0) + 2 * ((if b1 then 1 else 0) + 2 * ((if b2 then 1 else 0) +
      2 * ((if b3 then 1 else 0) + 2 * ((if b4 then 1 else 0) + 2 * ((if b5 then 1 else 0) +
      2 * ((if b6 then 1 else 0) + 2 * (if b7 then 1 else 0)))))))"

definition decimal_digit :: "char \<Rightarrow> int option" where
  "decimal_digit c = map_of (zip ''0123456789'' [0, 1, 2, 3, 4, 5, 6, 7, 8, 9]) c"

definition octal_digit :: "char \<Rightarrow> int option" where
  "octal_digit c = map_of (zip ''01234567'' [0, 1, 2, 3, 4, 5, 6, 7]) c"

definition hex_digit :: "char \<Rightarrow> int option" where
  "hex_digit c =
     map_of (zip ''0123456789abcdefABCDEF''
       [0, 1, 2, 3, 4, 5, 6, 7, 8, 9, 10, 11, 12, 13, 14, 15, 10, 11, 12, 13, 14, 15]) c"

definition number :: "int \<Rightarrow> int list \<Rightarrow> int" where
  "number base ds = foldl (\<lambda>n d. n * base + d) 0 ds"

definition digits :: "(char \<Rightarrow> int option) \<Rightarrow> string \<Rightarrow> int list" where
  "digits f s = map (\<lambda>c. the (f c)) (takeWhile (\<lambda>c. f c \<noteq> None) s)"

definition ascii_letter :: "char \<Rightarrow> bool" where
  "ascii_letter c = (c \<in> set ''abcdefghijklmnopqrstuvwxyzABCDEFGHIJKLMNOPQRSTUVWXYZ'')"

text \<open>
  The members of a class: a code unit, a range of code units, or one of the escapes for
  digits, white space and word characters and their complements, kept by its letter
  (\<open>d\<close>, \<open>D\<close>, \<open>s\<close>, \<open>S\<close>, \<open>w\<close>, \<open>W\<close>). A single character
  is a class with one member. A group carries its number when it captures; a look-around
  says whether it looks ahead and whether it is positive; a repetition has its least and
  greatest count (none for no bound) and whether it is greedy.
\<close>

datatype item = Lit int | Span int int | Kind char

datatype regex =
    REmpty
  | RChars bool "item list"
  | RDot
  | RBol
  | REol
  | RWordB bool
  | RBackref nat
  | RGroup "nat option" regex
  | RLook bool bool regex
  | RSeq regex regex
  | RAlt regex regex
  | RRepeat regex nat "nat option" bool

datatype opener = Root | Capture | NonCapture | Lookaround bool bool

datatype token = TTerm regex | TOpen opener | TClose | TBar | TQuant nat "nat option" bool

text \<open>
  The capturing groups of a source in the order of their opening parentheses, each with
  its name if it has one. Escaped characters and classes are passed over. The number of
  groups decides whether an escaped number is a back reference, and the presence of a
  name whether an escaped \<open>k\<close> is one.
\<close>

fun scan_groups :: "bool \<Rightarrow> string \<Rightarrow> string option list" where
  "scan_groups cls [] = []"
| "scan_groups cls (c # cs) =
     (if c = backslash then (case cs of [] \<Rightarrow> [] | e # r \<Rightarrow> scan_groups cls r)
      else if cls then scan_groups (c \<noteq> CHR '']'') cs
      else if c = CHR ''['' then scan_groups True cs
      else if c = CHR ''('' then
        (case cs of
           [] \<Rightarrow> [None]
         | q # r \<Rightarrow>
             if q \<noteq> CHR ''?'' then None # scan_groups False cs
             else (case r of
                     [] \<Rightarrow> []
                   | l # r' \<Rightarrow>
                       if l \<noteq> CHR ''<'' then scan_groups False cs
                       else (case r' of
                               [] \<Rightarrow> [Some []]
                             | x # r'' \<Rightarrow>
                                 if x = CHR ''='' \<or> x = CHR ''!''
                                 then scan_groups False cs
                                 else Some (takeWhile (\<lambda>c. c \<noteq> CHR ''>'') r') #
                                      scan_groups False cs)))
      else scan_groups False cs)"

text \<open>
  A group name is an identifier: it starts with a letter, a dollar sign or an underscore
  and goes on with these, digits and the middle dot. The letters below 256 are those of
  ASCII and of Latin-1.
\<close>

definition identifier_start :: "char \<Rightarrow> bool" where
  "identifier_start c =
     (ascii_letter c \<or> c = CHR ''$'' \<or> c = CHR ''_'' \<or>
      (let x = code c in x = 170 \<or> x = 181 \<or> x = 186 \<or>
         192 \<le> x \<and> x \<noteq> 215 \<and> x \<noteq> 247))"

definition identifier_part :: "char \<Rightarrow> bool" where
  "identifier_part c = (identifier_start c \<or> decimal_digit c \<noteq> None \<or> code c = 183)"

definition group_name :: "string \<Rightarrow> bool" where
  "group_name n =
     (case n of [] \<Rightarrow> False | c # cs \<Rightarrow> identifier_start c \<and> list_all identifier_part cs)"

text \<open>The number of the group with a given name.\<close>

fun group_index :: "string \<Rightarrow> string option list \<Rightarrow> nat option" where
  "group_index n [] = None"
| "group_index n (g # gs) =
     (if g = Some n then Some (Suc 0) else map_option Suc (group_index n gs))"

datatype escape = EChar int | EClass char | EWordB bool | EBackref nat

text \<open>
  A legacy octal escape: up to three octal digits when the first is 0 to 3, up to two
  otherwise. The result is the code unit and the number of digits taken.
\<close>

definition octal :: "string \<Rightarrow> int \<times> nat" where
  "octal s =
     (case s of
        a # b # c # r \<Rightarrow>
          (case (octal_digit a, octal_digit b, octal_digit c) of
             (Some x, Some y, Some z) \<Rightarrow>
               if x \<le> 3 then (x * 64 + y * 8 + z, Suc (Suc (Suc 0)))
               else (x * 8 + y, Suc (Suc 0))
           | (Some x, Some y, None) \<Rightarrow> (x * 8 + y, Suc (Suc 0))
           | (Some x, None, z) \<Rightarrow> (x, Suc 0)
           | _ \<Rightarrow> (0, 0))
      | [a, b] \<Rightarrow>
          (case (octal_digit a, octal_digit b) of
             (Some x, Some y) \<Rightarrow> (x * 8 + y, Suc (Suc 0))
           | (Some x, None) \<Rightarrow> (x, Suc 0)
           | _ \<Rightarrow> (0, 0))
      | [a] \<Rightarrow> (case octal_digit a of Some x \<Rightarrow> (x, Suc 0) | None \<Rightarrow> (0, 0))
      | [] \<Rightarrow> (0, 0))"

text \<open>
  The escape that follows a backslash, in a class or outside, and the number of characters
  after the backslash that belong to it; \<open>None\<close> is a syntax error. A decimal escape is
  a back reference when the source has that many groups and a legacy octal escape or the
  digit itself otherwise; an escaped \<open>c\<close> without a control letter and an escaped
  \<open>x\<close> or \<open>u\<close> without their digits stand for themselves; an escaped \<open>k\<close> is a
  named back reference only in a source with a named group, where it has to name one.
\<close>

definition escape :: "string option list \<Rightarrow> bool \<Rightarrow> string \<Rightarrow> (escape \<times> nat) option" where
  "escape groups in_class s =
     (case s of
        [] \<Rightarrow> None
      | e # r \<Rightarrow>
          if e \<in> set ''dDsSwW'' then Some (EClass e, Suc 0)
          else if e = CHR ''b'' then Some (if in_class then EChar 8 else EWordB True, Suc 0)
          else if e = CHR ''B'' \<and> \<not> in_class then Some (EWordB False, Suc 0)
          else if e = CHR ''f'' then Some (EChar 12, Suc 0)
          else if e = CHR ''n'' then Some (EChar 10, Suc 0)
          else if e = CHR ''r'' then Some (EChar 13, Suc 0)
          else if e = CHR ''t'' then Some (EChar 9, Suc 0)
          else if e = CHR ''v'' then Some (EChar 11, Suc 0)
          else if e = CHR ''c'' then
            (case r of
               l # r' \<Rightarrow>
                 if ascii_letter l \<or> in_class \<and> (decimal_digit l \<noteq> None \<or> l = CHR ''_'')
                 then Some (EChar (code l mod 32), Suc (Suc 0))
                 else Some (EChar 92, 0)
             | [] \<Rightarrow> Some (EChar 92, 0))
          else if e = CHR ''x'' then
            (case r of
               a # b # r' \<Rightarrow>
                 (case (hex_digit a, hex_digit b) of
                    (Some x, Some y) \<Rightarrow> Some (EChar (x * 16 + y), Suc (Suc (Suc 0)))
                  | _ \<Rightarrow> Some (EChar (code e), Suc 0))
             | _ \<Rightarrow> Some (EChar (code e), Suc 0))
          else if e = CHR ''u'' then
            (case r of
               a # b # c # d # r' \<Rightarrow>
                 (case (hex_digit a, hex_digit b, hex_digit c, hex_digit d) of
                    (Some x, Some y, Some z, Some w) \<Rightarrow>
                      Some (EChar (((x * 16 + y) * 16 + z) * 16 + w),
                            Suc (Suc (Suc (Suc (Suc 0)))))
                  | _ \<Rightarrow> Some (EChar (code e), Suc 0))
             | _ \<Rightarrow> Some (EChar (code e), Suc 0))
          else if e = CHR ''k'' \<and> list_ex (\<lambda>g. g \<noteq> None) groups then
            (if in_class then None
             else (case r of
                     l # r' \<Rightarrow>
                       if l = CHR ''<'' \<and> CHR ''>'' \<in> set r' \<and>
                          group_name (takeWhile (\<lambda>c. c \<noteq> CHR ''>'') r')
                       then (case group_index (takeWhile (\<lambda>c. c \<noteq> CHR ''>'') r') groups of
                               None \<Rightarrow> None
                             | Some i \<Rightarrow>
                                 Some (EBackref i,
                                   Suc (Suc (Suc (length
                                     (takeWhile (\<lambda>c. c \<noteq> CHR ''>'') r'))))))
                       else None
                   | [] \<Rightarrow> None))
          else if decimal_digit e \<noteq> None then
            (if e \<noteq> CHR ''0'' \<and> \<not> in_class \<and>
                number 10 (digits decimal_digit s) \<le> int (length groups)
             then Some (EBackref (nat (number 10 (digits decimal_digit s))), length (digits decimal_digit s))
             else if octal_digit e \<noteq> None then Some (EChar (fst (octal s)), snd (octal s))
             else Some (EChar (code e), Suc 0))
          else Some (EChar (code e), Suc 0))"

datatype raw = RawDash | RawAtom escape

text \<open>
  The atoms of a class up to its closing bracket, with the number of characters read, the
  bracket included. The first argument of the recursion counts characters that belong to
  an escape already read. An unescaped hyphen is kept apart: between two atoms it makes a
  range, which is a syntax error when its bounds are out of order; next to a class escape
  it stands for itself.
\<close>

fun class_atoms :: "string option list \<Rightarrow> nat \<Rightarrow> string \<Rightarrow> (raw list \<times> nat) option" where
  "class_atoms groups k [] = None"
| "class_atoms groups (Suc k) (c # cs) =
     map_option (\<lambda>(rs, n). (rs, Suc n)) (class_atoms groups k cs)"
| "class_atoms groups 0 (c # cs) =
     (if c = CHR '']'' then Some ([], Suc 0)
      else if c = backslash then
        (case escape groups True cs of
           None \<Rightarrow> None
         | Some (e, k) \<Rightarrow>
             map_option (\<lambda>(rs, n). (RawAtom e # rs, Suc n)) (class_atoms groups k cs))
      else map_option (\<lambda>(rs, n). ((if c = CHR ''-'' then RawDash else RawAtom (EChar (code c))) # rs, Suc n))
             (class_atoms groups 0 cs))"

fun single :: "raw \<Rightarrow> int option" where
  "single RawDash = Some 45"
| "single (RawAtom (EChar x)) = Some x"
| "single (RawAtom e) = None"

fun item_of :: "raw \<Rightarrow> item" where
  "item_of RawDash = Lit 45"
| "item_of (RawAtom (EChar x)) = Lit x"
| "item_of (RawAtom (EClass k)) = Kind k"
| "item_of (RawAtom e) = Lit 45"

fun class_ranges :: "raw list \<Rightarrow> item list option" where
  "class_ranges (a # RawDash # b # rs) =
     (case (single a, single b) of
        (Some x, Some y) \<Rightarrow>
          if y < x then None else map_option (Cons (Span x y)) (class_ranges rs)
      | _ \<Rightarrow> map_option (\<lambda>is. item_of a # Lit 45 # item_of b # is) (class_ranges rs))"
| "class_ranges (a # rs) = map_option (Cons (item_of a)) (class_ranges rs)"
| "class_ranges [] = Some []"

text \<open>
  A braced quantifier, read after its opening brace: the bounds and the number of
  characters taken. A brace that does not open a quantifier stands for itself.
\<close>

definition braces :: "string \<Rightarrow> (int \<times> int option \<times> nat) option" where
  "braces s =
     (let lo = digits decimal_digit s; r = drop (length lo) s in
      if lo = [] then None
      else (case r of
              [] \<Rightarrow> None
            | c # r' \<Rightarrow>
                if c = CHR ''}'' then Some (number 10 lo, Some (number 10 lo), Suc (length lo))
                else if c \<noteq> CHR '','' then None
                else (let hi = digits decimal_digit r'; r'' = drop (length hi) r' in
                      case r'' of
                        [] \<Rightarrow> None
                      | c' # r3 \<Rightarrow>
                          if c' \<noteq> CHR ''}'' then None
                          else if hi = [] then Some (number 10 lo, None, Suc (Suc (length lo)))
                          else Some (number 10 lo, Some (number 10 hi),
                                     Suc (Suc (length lo + length hi))))))"

text \<open>A quantifier is lazy when a question mark follows it.\<close>

definition quantifier :: "nat \<Rightarrow> nat option \<Rightarrow> nat \<Rightarrow> string \<Rightarrow> (token \<times> nat) option" where
  "quantifier lo hi k r =
     (case r of
        c # r' \<Rightarrow> if c = CHR ''?'' then Some (TQuant lo hi False, Suc k) else Some (TQuant lo hi True, k)
      | [] \<Rightarrow> Some (TQuant lo hi True, k))"

text \<open>
  The token that starts with character \<open>c\<close>, and the number of characters after \<open>c\<close>
  that belong to it.
\<close>

definition next_token :: "string option list \<Rightarrow> char \<Rightarrow> string \<Rightarrow> (token \<times> nat) option" where
  "next_token groups c cs =
     (if c = backslash then
        (case escape groups False cs of
           None \<Rightarrow> None
         | Some (EChar x, k) \<Rightarrow> Some (TTerm (RChars False [Lit x]), k)
         | Some (EClass e, k) \<Rightarrow> Some (TTerm (RChars False [Kind e]), k)
         | Some (EWordB b, k) \<Rightarrow> Some (TTerm (RWordB b), k)
         | Some (EBackref i, k) \<Rightarrow> Some (TTerm (RBackref i), k))
      else if c = CHR ''['' then
        (case cs of
           [] \<Rightarrow> None
         | n # r \<Rightarrow>
             (case class_atoms groups 0 (if n = CHR ''^'' then r else cs) of
                None \<Rightarrow> None
              | Some (rs, k) \<Rightarrow>
                  map_option
                    (\<lambda>is. (TTerm (RChars (n = CHR ''^'') is), if n = CHR ''^'' then Suc k else k))
                    (class_ranges rs)))
      else if c = CHR ''('' then
        (case cs of
           [] \<Rightarrow> Some (TOpen Capture, 0)
         | q # r \<Rightarrow>
             if q \<noteq> CHR ''?'' then Some (TOpen Capture, 0)
             else (case r of
                     [] \<Rightarrow> None
                   | x # r' \<Rightarrow>
                       if x = CHR '':'' then Some (TOpen NonCapture, Suc (Suc 0))
                       else if x = CHR ''='' then Some (TOpen (Lookaround True True), Suc (Suc 0))
                       else if x = CHR ''!'' then Some (TOpen (Lookaround True False), Suc (Suc 0))
                       else if x \<noteq> CHR ''<'' then None
                       else (case r' of
                               [] \<Rightarrow> None
                             | y # r'' \<Rightarrow>
                                 if y = CHR ''='' then
                                   Some (TOpen (Lookaround False True), Suc (Suc (Suc 0)))
                                 else if y = CHR ''!'' then
                                   Some (TOpen (Lookaround False False), Suc (Suc (Suc 0)))
                                 else if CHR ''>'' \<in> set r' \<and>
                                         group_name (takeWhile (\<lambda>c. c \<noteq> CHR ''>'') r')
                                 then Some (TOpen Capture,
                                        Suc (Suc (Suc (length
                                          (takeWhile (\<lambda>c. c \<noteq> CHR ''>'') r')))))
                                 else None)))
      else if c = CHR '')'' then Some (TClose, 0)
      else if c = CHR ''|'' then Some (TBar, 0)
      else if c = CHR ''.'' then Some (TTerm RDot, 0)
      else if c = CHR ''^'' then Some (TTerm RBol, 0)
      else if c = CHR ''$'' then Some (TTerm REol, 0)
      else if c = CHR ''*'' then quantifier 0 None 0 cs
      else if c = CHR ''+'' then quantifier (Suc 0) None 0 cs
      else if c = CHR ''?'' then quantifier 0 (Some (Suc 0)) 0 cs
      else if c = CHR ''{'' then
        (case braces cs of
           None \<Rightarrow> Some (TTerm (RChars False [Lit (code c)]), 0)
         | Some (lo, None, k) \<Rightarrow> quantifier (nat lo) None k (drop k cs)
         | Some (lo, Some hi, k) \<Rightarrow>
             if hi < lo then None else quantifier (nat lo) (Some (nat hi)) k (drop k cs))
      else Some (TTerm (RChars False [Lit (code c)]), 0))"

fun tokens :: "string option list \<Rightarrow> nat \<Rightarrow> string \<Rightarrow> token list option" where
  "tokens groups k [] = Some []"
| "tokens groups (Suc k) (c # cs) = tokens groups k cs"
| "tokens groups 0 (c # cs) =
     (case next_token groups c cs of
        None \<Rightarrow> None
      | Some (t, k) \<Rightarrow> map_option (Cons t) (tokens groups k cs))"

text \<open>
  What a quantifier may follow: an atom or a look-ahead, but no other assertion and no
  quantifier.
\<close>

fun quantifiable :: "regex \<Rightarrow> bool" where
  "quantifiable (RRepeat r lo hi greedy) = False"
| "quantifiable RBol = False"
| "quantifiable REol = False"
| "quantifiable (RWordB b) = False"
| "quantifiable (RLook ahead positive r) = ahead"
| "quantifiable r = True"

definition sequence :: "regex list \<Rightarrow> regex" where
  "sequence terms = foldl (\<lambda>r t. RSeq t r) REmpty terms"

definition alternatives :: "regex list \<Rightarrow> regex list \<Rightarrow> regex" where
  "alternatives finished terms = foldl (\<lambda>r a. RAlt a r) (sequence terms) finished"

fun close_group :: "opener \<Rightarrow> nat \<Rightarrow> regex \<Rightarrow> regex" where
  "close_group Capture i r = RGroup (Some i) r"
| "close_group (Lookaround ahead positive) i r = RLook ahead positive r"
| "close_group k i r = RGroup None r"

text \<open>
  The parser goes through the tokens once. Its stack holds, for every group that is open
  and for the pattern as a whole, the kind, the number, the alternatives that are finished
  and the terms of the one being read, both latest first. \<open>n\<close> is the number of
  capturing groups opened so far.
\<close>

fun parse_tokens ::
  "nat \<Rightarrow> (opener \<times> nat \<times> regex list \<times> regex list) list \<Rightarrow> token list \<Rightarrow> regex option" where
  "parse_tokens n [] ts = None"
| "parse_tokens n ((k, i, finished, terms) # stack) [] =
     (if stack = [] then Some (alternatives finished terms) else None)"
| "parse_tokens n ((k, i, finished, terms) # stack) (TTerm r # ts) =
     parse_tokens n ((k, i, finished, r # terms) # stack) ts"
| "parse_tokens n ((k, i, finished, terms) # stack) (TQuant lo hi greedy # ts) =
     (case terms of
        [] \<Rightarrow> None
      | r # terms' \<Rightarrow>
          if quantifiable r
          then parse_tokens n ((k, i, finished, RRepeat r lo hi greedy # terms') # stack) ts
          else None)"
| "parse_tokens n ((k, i, finished, terms) # stack) (TBar # ts) =
     parse_tokens n ((k, i, sequence terms # finished, []) # stack) ts"
| "parse_tokens n stack (TOpen k # ts) =
     (if k = Capture then parse_tokens (Suc n) ((k, Suc n, [], []) # stack) ts
      else parse_tokens n ((k, 0, [], []) # stack) ts)"
| "parse_tokens n ((k, i, finished, terms) # stack) (TClose # ts) =
     (case stack of
        [] \<Rightarrow> None
      | (k', i', finished', terms') # stack' \<Rightarrow>
          parse_tokens n
            ((k', i', finished', close_group k i (alternatives finished terms) # terms') # stack')
            ts)"

definition names_distinct :: "string option list \<Rightarrow> bool" where
  "names_distinct groups = distinct (filter (\<lambda>g. g \<noteq> None) groups)"

definition compile :: "string \<Rightarrow> regex option" where
  "compile source =
     (let groups = scan_groups False source in
      if names_distinct groups then
        (case tokens groups 0 source of
           None \<Rightarrow> None
         | Some ts \<Rightarrow> parse_tokens 0 [(Root, 0, [], [])] ts)
      else None)"

text \<open>
  Matching. With the flag \<open>i\<close> two code units are the same when their canonical forms
  are: \<open>variants\<close> lists the code units that have the canonical form of a character.
  Below 256 these are the two cases of a letter; the letters 0xFF and 0xB5 have their
  upper case above 255, and 0xDF has none.
\<close>

record flags =
  ignoreCase :: bool
  multiline :: bool
  dotAll :: bool
  sticky :: bool

definition variants :: "char \<Rightarrow> int list" where
  "variants c =
     (let x = code c in
      if 65 \<le> x \<and> x \<le> 90 \<or> 192 \<le> x \<and> x \<le> 222 \<and> x \<noteq> 215 then [x, x + 32]
      else if 97 \<le> x \<and> x \<le> 122 \<or> 224 \<le> x \<and> x \<le> 254 \<and> x \<noteq> 247 then [x, x - 32]
      else if x = 255 then [255, 376]
      else if x = 181 then [181, 924, 956]
      else [x])"

text \<open>The digits, the word characters and the white space, as code units.\<close>

definition digit_unit :: "int \<Rightarrow> bool" where
  "digit_unit x = (48 \<le> x \<and> x \<le> 57)"

definition word_unit :: "int \<Rightarrow> bool" where
  "word_unit x = (digit_unit x \<or> 65 \<le> x \<and> x \<le> 90 \<or> x = 95 \<or> 97 \<le> x \<and> x \<le> 122)"

definition space_unit :: "int \<Rightarrow> bool" where
  "space_unit x =
     (9 \<le> x \<and> x \<le> 13 \<or> x = 32 \<or> x = 160 \<or> x = 5760 \<or> 8192 \<le> x \<and> x \<le> 8202 \<or>
      x = 8232 \<or> x = 8233 \<or> x = 8239 \<or> x = 8287 \<or> x = 12288 \<or> x = 65279)"

fun unit_in :: "item \<Rightarrow> int \<Rightarrow> bool" where
  "unit_in (Lit y) x = (x = y)"
| "unit_in (Span lo hi) x = (lo \<le> x \<and> x \<le> hi)"
| "unit_in (Kind k) x =
     (if k = CHR ''d'' then digit_unit x
      else if k = CHR ''D'' then \<not> digit_unit x
      else if k = CHR ''w'' then word_unit x
      else if k = CHR ''W'' then \<not> word_unit x
      else if k = CHR ''s'' then space_unit x
      else \<not> space_unit x)"

definition char_in :: "bool \<Rightarrow> bool \<Rightarrow> item list \<Rightarrow> char \<Rightarrow> bool" where
  "char_in ic invert items c =
     (list_ex (\<lambda>x. list_ex (\<lambda>i. unit_in i x) items) (if ic then variants c else [code c])
      \<noteq> invert)"

definition line_terminator :: "char \<Rightarrow> bool" where
  "line_terminator c = (c = CHR 0x0A \<or> c = CHR 0x0D)"

text \<open>
  The state of a match: the text before the position, latest character first, the text
  after it, and the captures. A match moves forwards, or backwards inside a look-behind.
\<close>

type_synonym mstate = "string \<times> string \<times> (nat \<times> string) list"

definition remaining :: "bool \<Rightarrow> mstate \<Rightarrow> nat" where
  "remaining fw st = (case st of (b, a, c) \<Rightarrow> if fw then length a else length b)"

definition advance :: "bool \<Rightarrow> (char \<Rightarrow> bool) \<Rightarrow> mstate \<Rightarrow> mstate list" where
  "advance fw ok st =
     (case st of
        (b, a, c) \<Rightarrow>
          if fw then (case a of [] \<Rightarrow> [] | x # a' \<Rightarrow> if ok x then [(x # b, a', c)] else [])
          else (case b of [] \<Rightarrow> [] | x # b' \<Rightarrow> if ok x then [(b', x # a, c)] else []))"

definition at_word :: "string \<Rightarrow> bool" where
  "at_word s = (case s of [] \<Rightarrow> False | c # cs \<Rightarrow> word_unit (code c))"

definition at_line :: "bool \<Rightarrow> string \<Rightarrow> bool" where
  "at_line ml s = (case s of [] \<Rightarrow> True | c # cs \<Rightarrow> ml \<and> line_terminator c)"

fun same_text :: "bool \<Rightarrow> string \<Rightarrow> string \<Rightarrow> bool" where
  "same_text ic [] t = True"
| "same_text ic (x # s) [] = False"
| "same_text ic (x # s) (y # t) =
     ((if ic then code x \<in> set (variants y) else x = y) \<and> same_text ic s t)"

fun shift :: "string \<Rightarrow> string \<Rightarrow> string \<Rightarrow> string \<times> string" where
  "shift (x # s) b (y # a) = shift s (y # b) a"
| "shift s b a = (b, a)"

definition backreference :: "bool \<Rightarrow> bool \<Rightarrow> nat \<Rightarrow> mstate \<Rightarrow> mstate list" where
  "backreference ic fw i st =
     (case st of
        (b, a, c) \<Rightarrow>
          (case map_of c i of
             None \<Rightarrow> [st]
           | Some s \<Rightarrow>
               if fw then
                 (if same_text ic s a then (case shift s b a of (b', a') \<Rightarrow> [(b', a', c)]) else [])
               else
                 (if same_text ic (rev s) b
                  then (case shift s a b of (a', b') \<Rightarrow> [(b', a', c)]) else [])))"

definition capture :: "nat \<Rightarrow> bool \<Rightarrow> mstate \<Rightarrow> mstate \<Rightarrow> mstate" where
  "capture i fw st st' =
     (case (st, st') of
        ((b, a, c), (b', a', c')) \<Rightarrow>
          (b', a',
           (i, if fw then rev (take (length b' - length b) b')
               else take (length a' - length a) a') # c'))"

primrec groups_of :: "regex \<Rightarrow> nat list" where
  "groups_of REmpty = []"
| "groups_of (RChars invert items) = []"
| "groups_of RDot = []"
| "groups_of RBol = []"
| "groups_of REol = []"
| "groups_of (RWordB b) = []"
| "groups_of (RBackref i) = []"
| "groups_of (RGroup g r) = (case g of None \<Rightarrow> [] | Some i \<Rightarrow> [i]) @ groups_of r"
| "groups_of (RLook ahead positive r) = groups_of r"
| "groups_of (RSeq r1 r2) = groups_of r1 @ groups_of r2"
| "groups_of (RAlt r1 r2) = groups_of r1 @ groups_of r2"
| "groups_of (RRepeat r lo hi greedy) = groups_of r"

definition forget :: "nat list \<Rightarrow> mstate \<Rightarrow> mstate" where
  "forget gs st = (case st of (b, a, c) \<Rightarrow> (b, a, filter (\<lambda>(i, s). i \<notin> set gs) c))"

text \<open>
  \<open>matches\<close> gives the states in which a pattern can end, in the order in which
  backtracking tries them. A repetition forgets the captures of its body before every
  round, and a round that may be left out has to move on. The recursion ends because the
  pattern gets smaller, or the least count does, or the text left to read does.
\<close>

primrec weight :: "regex \<Rightarrow> nat" where
  "weight REmpty = 0"
| "weight (RChars invert items) = 0"
| "weight RDot = 0"
| "weight RBol = 0"
| "weight REol = 0"
| "weight (RWordB b) = 0"
| "weight (RBackref i) = 0"
| "weight (RGroup g r) = Suc (weight r)"
| "weight (RLook ahead positive r) = Suc (weight r)"
| "weight (RSeq r1 r2) = Suc (weight r1 + weight r2)"
| "weight (RAlt r1 r2) = Suc (weight r1 + weight r2)"
| "weight (RRepeat r lo hi greedy) = Suc (weight r)"

fun repeat_min :: "regex \<Rightarrow> nat" where
  "repeat_min (RRepeat r lo hi greedy) = lo"
| "repeat_min r = 0"

function matches :: "flags \<Rightarrow> bool \<Rightarrow> regex \<Rightarrow> mstate \<Rightarrow> mstate list" where
  "matches fl fw REmpty st = [st]"
| "matches fl fw (RChars invert items) st = advance fw (char_in (ignoreCase fl) invert items) st"
| "matches fl fw RDot st = advance fw (\<lambda>c. dotAll fl \<or> \<not> line_terminator c) st"
| "matches fl fw RBol st = (if at_line (multiline fl) (fst st) then [st] else [])"
| "matches fl fw REol st = (if at_line (multiline fl) (fst (snd st)) then [st] else [])"
| "matches fl fw (RWordB b) st =
     (if (at_word (fst st) \<noteq> at_word (fst (snd st))) = b then [st] else [])"
| "matches fl fw (RBackref i) st = backreference (ignoreCase fl) fw i st"
| "matches fl fw (RGroup g r) st =
     (case g of
        None \<Rightarrow> matches fl fw r st
      | Some i \<Rightarrow> map (capture i fw st) (matches fl fw r st))"
| "matches fl fw (RLook ahead positive r) st =
     (case matches fl ahead r st of
        [] \<Rightarrow> if positive then [] else [st]
      | st' # sts \<Rightarrow> if positive then [(fst st, fst (snd st), snd (snd st'))] else [])"
| "matches fl fw (RSeq r1 r2) st =
     (if fw then concat (map (matches fl fw r2) (matches fl fw r1 st))
      else concat (map (matches fl fw r1) (matches fl fw r2 st)))"
| "matches fl fw (RAlt r1 r2) st = matches fl fw r1 st @ matches fl fw r2 st"
| "matches fl fw (RRepeat r lo hi greedy) st =
     (if hi = Some 0 then [st]
      else if lo \<noteq> 0 then
        concat (map (matches fl fw (RRepeat r (lo - 1) (map_option (\<lambda>n. n - 1) hi) greedy))
          (matches fl fw r (forget (groups_of r) st)))
      else if greedy then
        concat (map (\<lambda>st'. if remaining fw st' < remaining fw st
                            then matches fl fw (RRepeat r 0 (map_option (\<lambda>n. n - 1) hi) greedy) st'
                            else [])
          (matches fl fw r (forget (groups_of r) st))) @ [st]
      else
        st # concat (map (\<lambda>st'. if remaining fw st' < remaining fw st
                            then matches fl fw (RRepeat r 0 (map_option (\<lambda>n. n - 1) hi) greedy) st'
                            else [])
          (matches fl fw r (forget (groups_of r) st))))"
  by pat_completeness auto
termination
  by (relation "inv_image (less_than <*lex*> less_than <*lex*> less_than)
        (\<lambda>(fl, fw, r, st). (weight r, repeat_min r, remaining fw st))")
     auto

text \<open>\<open>test\<close>: a match from some position of the string, from the first only when sticky.\<close>

fun search :: "flags \<Rightarrow> regex \<Rightarrow> string \<Rightarrow> string \<Rightarrow> bool" where
  "search fl r b [] = (matches fl True r (b, [], []) \<noteq> [])"
| "search fl r b (c # cs) =
     (matches fl True r (b, c # cs, []) \<noteq> [] \<or> \<not> sticky fl \<and> search fl r (c # b) cs)"

definition flags_of :: "string \<Rightarrow> flags option" where
  "flags_of s =
     (if distinct s \<and> set s \<subseteq> set ''dgimsy''
      then Some \<lparr>ignoreCase = CHR ''i'' \<in> set s, multiline = CHR ''m'' \<in> set s,
                 dotAll = CHR ''s'' \<in> set s, sticky = CHR ''y'' \<in> set s\<rparr>
      else None)"

text \<open>The sources and flags that the constructor accepts.\<close>

definition ecmascript_grammar :: regexp_grammar where
  "ecmascript_grammar source fs = (flags_of fs \<noteq> None \<and> compile source \<noteq> None)"

definition regexp_test :: "string \<Rightarrow> string \<Rightarrow> string \<Rightarrow> bool option" where
  "regexp_test source fs s =
     (case (flags_of fs, compile source) of
        (Some fl, Some r) \<Rightarrow> Some (search fl r [] s)
      | _ \<Rightarrow> None)"

subsection \<open>Lower case\<close>

text \<open>
  \<open>toLowerCase\<close> on code units below 256: the letters \<open>A\<close> to \<open>Z\<close> are 0x41 to 0x5A
  and the upper-case letters of Latin-1 are 0xC0 to 0xDE without 0xD7, read off the bits
  (the first is the lowest); the lower-case letter is the same code unit with bit 5 set.
\<close>

fun is_upper :: "char \<Rightarrow> bool" where
  "is_upper (Char b0 b1 b2 b3 b4 b5 b6 b7) =
     (b6 \<and> \<not> b5 \<and>
      (if b7 then \<not> (b0 \<and> b1 \<and> b2 \<and> \<not> b3 \<and> b4)
       else (b0 \<or> b1 \<or> b2 \<or> b3 \<or> b4) \<and> \<not> (b4 \<and> b3 \<and> (b2 \<or> b1 \<and> b0))))"

fun to_lower :: "char \<Rightarrow> char" where
  "to_lower (Char b0 b1 b2 b3 b4 b5 b6 b7) =
     (if is_upper (Char b0 b1 b2 b3 b4 b5 b6 b7) then Char b0 b1 b2 b3 b4 True b6 b7
      else Char b0 b1 b2 b3 b4 b5 b6 b7)"

subsection \<open>A static page\<close>

text \<open>
  An element carries its ARIA role, its accessible name, whether it is visible, its
  attributes, the CSS selectors of the steps that select it and those that select one of
  its ancestors. \<open>getByRole\<close> filters by role and name: an exact name is the whole
  name, case-sensitive; a name that is not exact is a case-insensitive substring; a
  regular expression is tested against the name. A locator has to resolve to one element
  (strict mode); the waiting calls time out when it resolves to none or the element does
  not have the property asked for. The page never changes.
\<close>

record element =
  el_role :: string
  el_name :: string
  el_visible :: bool
  el_attributes :: "(string \<times> string) list"
  el_selectors :: "string list"
  el_inside :: "string list"

definition name_matches :: "role_options \<Rightarrow> string \<Rightarrow> bool option" where
  "name_matches opts accessible =
     (case name opts of
        None \<Rightarrow> Some True
      | Some (Str n) \<Rightarrow>
          Some (if exact opts then accessible = n
                else str_includes (map to_lower accessible) (map to_lower n))
      | Some (RegExp source flags) \<Rightarrow> regexp_test source flags accessible)"

definition by_role :: "string \<Rightarrow> role_options \<Rightarrow> element list \<Rightarrow> element list option" where
  "by_role r opts els =
     (if list_all (\<lambda>e. name_matches opts (el_name e) \<noteq> None) els
      then Some (filter (\<lambda>e. el_role e = r \<and> name_matches opts (el_name e) = Some True) els)
      else None)"

fun resolve :: "element list \<Rightarrow> locator \<Rightarrow> element list option" where
  "resolve els (Locator css) = Some (filter (\<lambda>e. css \<in> set (el_selectors e)) els)"
| "resolve els (GetByRole r opts) = by_role r opts els"
| "resolve els (LocGetByRole (Locator css) r opts) =
     by_role r opts (filter (\<lambda>e. css \<in> set (el_inside e)) els)"
| "resolve els (LocGetByRole l r opts) = None"

definition timeout :: "error + val" where
  "timeout = Inl (LibraryError ''Timeout exceeded'')"

definition the_element :: "element list option \<Rightarrow> (element \<Rightarrow> error + val) \<Rightarrow> error + val" where
  "the_element found f =
     (case found of
        None \<Rightarrow> Inl (LibraryError ''outside the page model'')
      | Some [] \<Rightarrow> timeout
      | Some [e] \<Rightarrow> f e
      | Some (e # e' # es) \<Rightarrow> Inl (LibraryError ''strict mode violation''))"

definition when_visible :: "element \<Rightarrow> error + val" where
  "when_visible e = (if el_visible e then Inr VUndefined else timeout)"

fun answer :: "element list \<Rightarrow> call \<Rightarrow> error + val" where
  "answer els (IsVisible p l) =
     (if resolve els l = Some [] then Inr (VBool False)
      else the_element (resolve els l) (\<lambda>e. Inr (VBool (el_visible e))))"
| "answer els (ExpectToBeVisible p l) = the_element (resolve els l) when_visible"
| "answer els (GetAttribute p l a) =
     the_element (resolve els l)
       (\<lambda>e. Inr (case map_of (el_attributes e) a of None \<Rightarrow> VNull | Some v \<Rightarrow> VStr v))"
| "answer els (ExpectToHaveAttribute p l a v) =
     the_element (resolve els l)
       (\<lambda>e. if map_of (el_attributes e) a = Some v then Inr VUndefined else timeout)"
| "answer els (Click p l) = the_element (resolve els l) when_visible"
| "answer els (Hover p l) = the_element (resolve els l) when_visible"
| "answer els (Focus p l) = the_element (resolve els l) when_visible"
| "answer els (ExpectToBeFocused p l) = the_element (resolve els l) when_visible"
| "answer els c = Inr VUndefined"

definition static_page :: "element list driver" where
  "static_page c els = (answer els c, els)"

definition link_element :: "string \<Rightarrow> string \<Rightarrow> string list \<Rightarrow> element" where
  "link_element n href inside_of =
     \<lparr>el_role = ''link'', el_name = n, el_visible = True,
      el_attributes = [(''href'', href)], el_selectors = [], el_inside = inside_of\<rparr>"

definition button_element :: "string \<Rightarrow> string list \<Rightarrow> element" where
  "button_element n inside_of =
     \<lparr>el_role = ''button'', el_name = n, el_visible = True,
      el_attributes = [], el_selectors = [], el_inside = inside_of\<rparr>"

definition header_logo :: "element list" where
  \<open>header_logo =
     [\<lparr>el_role = ''banner'', el_name = [], el_visible = True, el_attributes = [],
       el_selectors = [''#header'', ''header, [role="banner"]''], el_inside = []\<rparr>,
      link_element ''logo'' ''/'' [''#header''],
      \<lparr>el_role = ''img'', el_name = ''logo'', el_visible = True,
       el_attributes =
         [(''alt'', ''logo''), (''src'', ''/globalassets/images/5_logos/kainos_logo.png?v=1'')],
       el_selectors = [''#header img[alt="logo"]''], el_inside = [''#header'']\<rparr>]\<close>

definition header_navigation :: "element list" where
  "header_navigation =
     [link_element ''Digital Services'' ''/digital-services'' [''#header''],
      link_element ''Workday'' ''/workday'' [''#header''],
      link_element ''Industries'' ''/industries'' [''#header''],
      link_element ''Insights'' ''/insights'' [''#header''],
      link_element ''Careers'' ''https://careers.kainos.com/gb/en'' [''#header'']]"

definition header_right_side :: "element list" where
  "header_right_side =
     [button_element ''Open Share icons modal window'' [''#header''],
      link_element ''Get in touch'' ''/contact-us'' [''#header''],
      button_element ''Search'' [''#header'']]"

definition dropdown_menu :: "element list" where
  "dropdown_menu =
     [link_element ''Digital Advisory'' ''/digital-services/digital-advisory'' [''#header''],
      link_element ''Cloud and engineering'' ''/digital-services/cloud'' [''#header''],
      link_element ''Data and AI'' ''/digital-services/data-and-ai'' [''#header''],
      link_element ''AI Business Solutions'' ''/digital-services/ai'' [''#header''],
      link_element ''User-centred design'' ''/digital-services/design'' [''#header''],
      link_element ''Managed services'' ''/digital-services/managed-services'' [''#header''],
      link_element ''Building digital transformation'' ''/impact/building'' [''#header''],
      link_element ''Driving continuous improvement'' ''/impact/driving'' [''#header''],
      link_element ''Improving business performance'' ''/impact/performance'' [''#header''],
      link_element ''Improving customer engagement'' ''/impact/engagement'' [''#header'']]"

definition nav_items_table :: "string list list" where
  "nav_items_table =
     [[''Navigation Item'', ''URL''],
      [''Digital Services'', ''/digital-services''],
      [''Workday'', ''/workday''],
      [''Industries'', ''/industries''],
      [''Insights'', ''/insights''],
      [''Careers'', ''https://careers.kainos.com/gb/en'']]"

definition services_table :: "string list list" where
  "services_table =
     [[''Service''],
      [''Digital Advisory''],
      [''Cloud and engineering''],
      [''Data and AI''],
      [''AI Business Solutions''],
      [''User-centred design''],
      [''Managed services'']]"

definition impacts_table :: "string list list" where
  "impacts_table =
     [[''Impact''],
      [''Building digital transformation''],
      [''Driving continuous improvement''],
      [''Improving business performance''],
      [''Improving customer engagement'']]"

definition on_page :: "'b \<Rightarrow> nat \<Rightarrow> 'b state" where
  "on_page e p =
     \<lparr>env = e, trace = [], browser = VObj 0, this_page = VObj p, this_context = VObj 1\<rparr>"


subsection \<open>Failing calls and object handles\<close>





text \<open>
  A driver whose state is the next free handle: launching a browser, opening a context, a
  page and taking a screenshot return a new object, every other call returns
  \<open>undefined\<close>.
\<close>

fun handles :: "nat driver" where
  "handles (Launch headless slowMo) n = (Inr (VObj n), Suc n)"
| "handles (NewContext b w h ignoreHTTPSErrors) n = (Inr (VObj n), Suc n)"
| "handles (NewPage c) n = (Inr (VObj n), Suc n)"
| "handles (Screenshot p path fullPage) n = (Inr (VObj n), Suc n)"
| "handles c n = (Inr VUndefined, n)"

section \<open>The number of calls of a step\<close>


section \<open>What the After hook asks of the driver\<close>




section \<open>Calls of a run\<close>

text \<open>
  Kinds of calls, and the context events of a trace: a context is opened by a
  \<open>newContext\<close> that returns an object and closed by a \<open>close\<close> of it that returns.
  \<open>one_context cur\<close> holds of a trace when, starting with \<open>cur\<close> open, a context is only
  opened while none is open and only the open one is closed, so that at most one is open
  at any time; \<open>open_context\<close> is the context left open at the end.
\<close>

fun is_launch :: "call \<Rightarrow> bool" where
  "is_launch (Launch headless slowMo) = True"
| "is_launch c = False"

fun is_close_browser :: "call \<Rightarrow> bool" where
  "is_close_browser (CloseBrowser b) = True"
| "is_close_browser c = False"

fun is_new_context :: "call \<Rightarrow> bool" where
  "is_new_context (NewContext b w h i) = True"
| "is_new_context c = False"

fun is_close_context :: "call \<Rightarrow> bool" where
  "is_close_context (CloseContext c) = True"
| "is_close_context c = False"

definition page_call :: "call \<Rightarrow> bool" where
  "page_call c =
     (\<not> is_launch c \<and> \<not> is_close_browser c \<and> \<not> is_new_context c \<and> \<not> is_close_context c)"


text \<open>The entries are the answers of the driver, given in turn from one state to the next.\<close>

fun faithful :: "'b driver \<Rightarrow> 'b \<Rightarrow> entry list \<Rightarrow> 'b \<Rightarrow> bool" where
  "faithful d e [] e' = (e' = e)"
| "faithful d e ((c, r) # new) e' = (fst (d c e) = r \<and> faithful d (snd (d c e)) new e')"

text \<open>
  \<open>only P d m\<close>: the routine \<open>m\<close> keeps the frame, its new entries are the answers of
  \<open>d\<close>, and it makes only calls that satisfy \<open>P\<close>.
\<close>

definition only ::
  "(call \<Rightarrow> bool) \<Rightarrow> 'b driver \<Rightarrow> ('b state \<Rightarrow> 'r \<times> 'b state) \<Rightarrow> bool" where
  "only P d m =
     (\<forall>s out s'. m s = (out, s') \<longrightarrow>
        (\<exists>new. frame s s' new \<and> faithful d (env s) new (env s') \<and>
               (\<forall>e\<in>set new. P (fst e))))"









section \<open>Properties of the contracts\<close>

lemmas prog_defs = perform_def bind_def return_def throw_def with_page_def catch_false_def

lemma follows_append_ok:
  "follows es1 n1 (Inr ()) \<Longrightarrow> follows es2 n2 out \<Longrightarrow> follows (es1 @ es2) (n1 @ n2) out"
  by (induction es1 n1 "Inr () :: error + unit" rule: follows.induct)
     (auto split: sum.splits if_splits)

lemma follows_append_err:
  "follows es1 n1 (Inl e) \<Longrightarrow> follows (es1 @ es2) n1 (Inl e)"
  by (induction es1 n1 "Inl e :: error + unit" rule: follows.induct)
     (auto split: sum.splits if_splits)

lemma frame_trans:
  "frame s s1 n1 \<Longrightarrow> frame s1 s2 n2 \<Longrightarrow> frame s s2 (n1 @ n2)"
  by (simp add: frame_def)

lemma realises_return: "realises p (return ()) []"
  by (simp add: realises_def return_def frame_def)

lemma realises_seq:
  assumes "realises p m es1" and "realises p n es2"
  shows "realises p (bind m (\<lambda>_. n)) (es1 @ es2)"
  unfolding realises_def
proof (intro allI impI)
  fix s out s'
  assume pg: "this_page s = VObj p" and run: "bind m (\<lambda>_. n) s = (out, s')"
  obtain out1 s1 where m: "m s = (out1, s1)" by (cases "m s")
  from assms(1) [unfolded realises_def, rule_format, OF pg m]
  obtain n1 where fr1: "frame s s1 n1" and f1: "follows es1 n1 out1"
    by blast
  show "\<exists>new. frame s s' new \<and> follows (es1 @ es2) new out"
  proof (cases out1)
    case (Inl e)
    with m run have "out = Inl e" "s' = s1" by (auto simp: bind_def)
    with fr1 f1 Inl show ?thesis by (auto intro: follows_append_err)
  next
    case (Inr u)
    with m run have n: "n s1 = (out, s')" by (simp add: bind_def)
    from fr1 pg have "this_page s1 = VObj p" by (simp add: frame_def)
    from assms(2) [unfolded realises_def, rule_format, OF this n]
    obtain n2 where fr2: "frame s1 s' n2" and f2: "follows es2 n2 out"
      by blast
    from f1 f2 Inr have "follows (es1 @ es2) (n1 @ n2) out"
      by (auto intro: follows_append_ok)
    with frame_trans [OF fr1 fr2] show ?thesis by blast
  qed
qed

lemma realises_for_each:
  assumes "\<And>x. realises p (body x) (sc x)"
  shows "realises p (for_each body xs) (concat (map sc xs))"
  by (induction xs) (auto intro: realises_return realises_seq assms)

lemma realises_with_page:
  "realises p (f p) es \<Longrightarrow> realises p (with_page f) es"
  by (simp add: realises_def with_page_def)

lemma realises_perform:
  assumes "\<And>v. accept v \<Longrightarrow> f v = return ()"
    and "\<And>v. \<not> accept v \<Longrightarrow> f v = throw ExpectError"
  shows "realises p (bind (perform d c) f) [(c, accept)]"
  unfolding realises_def
proof (intro allI impI)
  fix s out s'
  assume run: "bind (perform d c) f s = (out, s')"
  obtain r e' where d: "d c (env s) = (r, e')" by (cases "d c (env s)")
  show "\<exists>new. frame s s' new \<and> follows [(c, accept)] new out"
  proof (intro exI [of _ "[(c, r)]"], cases r)
    case (Inl e)
    with d run show "frame s s' [(c, r)] \<and> follows [(c, accept)] [(c, r)] out"
      by (auto simp: bind_def perform_def frame_def)
  next
    case (Inr v)
    with d run assms [of v] show "frame s s' [(c, r)] \<and> follows [(c, accept)] [(c, r)] out"
      by (cases "accept v") (auto simp: bind_def perform_def frame_def return_def throw_def)
  qed
qed

lemma realises_call: "realises p (bind (perform d c) (\<lambda>_. return ())) [(c, anything)]"
  by (rule realises_perform) (simp_all add: anything_def)

lemma realises_call_seq:
  assumes "realises p m es"
  shows "realises p (bind (perform d c) (\<lambda>_. m)) ((c, anything) # es)"
proof -
  have "bind (bind (perform d c) (\<lambda>_. return ())) (\<lambda>_. m) = bind (perform d c) (\<lambda>_. m)"
    by (rule ext) (simp add: bind_def return_def split: prod.splits sum.splits)
  then show ?thesis
    using realises_seq [OF realises_call, of p m es d c] assms by simp
qed

lemma realises_toContain:
  "realises p (bind (perform d c) (\<lambda>v. expect_toContain v t)) [(c, string_containing t)]"
  by (rule realises_perform)
     (auto simp: string_containing_def expect_toContain_def split: val.splits)

lemma realises_toBe:
  "realises p (bind (perform d c) (\<lambda>v. expect_toBe v x)) [(c, is_val x)]"
  by (rule realises_perform) (auto simp: is_val_def expect_toBe_def)

lemma realises_nav_item_row: "realises p (nav_item_row d p r) (nav_item_script p r)"
  unfolding nav_item_row_def nav_item_script_def Let_def
  by (rule realises_call_seq) (rule realises_toBe)

lemma realises_dropdown_row: "realises p (dropdown_row d col p r) (dropdown_script col p r)"
  unfolding dropdown_row_def dropdown_script_def
  by (rule realises_call)

lemma realises_focus_link: "realises p (focus_link d p l) (focus_script p l)"
  unfolding focus_link_def focus_script_def
  by (rule realises_call_seq) (rule realises_call)

lemma new_RegExp_accepted: "js n fl \<Longrightarrow> bind (new_RegExp js n fl) f = f (RegExp n fl)"
  by (rule ext) (simp add: new_RegExp_def bind_def return_def)

lemma new_RegExp_rejected: "\<not> js n fl \<Longrightarrow> bind (new_RegExp js n fl) f = throw SyntaxError"
  by (rule ext) (simp add: new_RegExp_def bind_def throw_def)

lemma realises_with_page_then:
  "realises p (bind arguments (f p)) es \<Longrightarrow> realises p (with_page_then arguments f) es"
  by (simp add: realises_def with_page_then_def)

lemma realises_step:
  assumes "st \<noteq> AcceptCookieConsent" and "accepted js st"
  shows "realises p (run_step js d st) (script p st)"
proof (cases st)
  case (ButtonVisible n)
  with assms(2) show ?thesis
    by (simp add: step_button_visible_def)
       (rule realises_with_page_then, simp add: new_RegExp_accepted realises_call)
next
  case (LinkVisible n)
  with assms(2) show ?thesis
    by (simp add: step_link_visible_def)
       (rule realises_with_page_then, simp add: new_RegExp_accepted realises_call)
next
  case (LinkPointsTo n u)
  with assms(2) show ?thesis
    by (simp add: step_link_points_to_def)
       (rule realises_with_page_then, simp add: new_RegExp_accepted realises_call)
next
  case (NavItemsVisible t)
  then show ?thesis
    by (simp add: step_nav_items_def)
       (intro realises_for_each realises_with_page realises_nav_item_row)
next
  case (ServicesVisible t)
  then show ?thesis
    by (simp add: step_services_visible_def)
       (intro realises_for_each realises_with_page realises_dropdown_row)
next
  case (ImpactsVisible t)
  then show ?thesis
    by (simp add: step_impacts_visible_def)
       (intro realises_for_each realises_with_page realises_dropdown_row)
next
  case KeyboardAccessible
  then show ?thesis
    by (simp add: step_keyboard_accessible_def)
       (intro realises_for_each realises_with_page realises_focus_link)
next
  case AcceptCookieConsent
  with assms show ?thesis by simp
qed (simp_all add: step_navigate_def step_logo_visible_def step_logo_src_def
       step_logo_link_def step_hover_nav_item_def step_click_nav_item_def
       step_click_link_def step_navigated_to_def step_title_contains_def
       step_aria_landmarks_def,
     (intro realises_with_page realises_call realises_call_seq realises_toContain)+)

lemma starts_with_iff: "starts_with s t \<longleftrightarrow> (\<exists>b. s = t @ b)"
  by (induction s t rule: starts_with.induct) auto

lemma str_includes_iff: "str_includes s t \<longleftrightarrow> (\<exists>a b. s = a @ t @ b)"
proof (induction s)
  case Nil
  then show ?case by auto
next
  case (Cons c cs)
  have "(\<exists>a b. c # cs = a @ t @ b) \<longleftrightarrow>
        (\<exists>b. c # cs = t @ b) \<or> (\<exists>a b. cs = a @ t @ b)"
    by (auto simp: Cons_eq_append_conv)
  then show ?case
    using Cons by (simp add: starts_with_iff)
qed

lemma hashes_nav_items:
  "hashes ([''Navigation Item'', ''URL''] # map (\<lambda>(label, url). [label, url]) items) =
   map (\<lambda>(label, url). [(''URL'', url), (''Navigation Item'', label)]) items"
  by (simp add: hashes_def case_prod_unfold)

lemma follows_passed:
  "follows es new (Inr ()) \<Longrightarrow>
     map fst new = map fst es \<and> (\<forall>e\<in>set new. \<exists>v. snd e = Inr v)"
  by (induction es new "Inr () :: error + unit" rule: follows.induct)
     (auto split: sum.splits if_splits)


lemma follows_fail_fast:
  "follows es new out \<Longrightarrow>
     (\<forall>e\<in>set (butlast new). \<not> isl (snd e)) \<and>
     (out = Inr () \<longrightarrow> (\<forall>e\<in>set new. \<not> isl (snd e))) \<and>
     (\<forall>e. out = Inl e \<longrightarrow>
        new \<noteq> [] \<and> (snd (last new) = Inl e \<or> e = ExpectError \<and> \<not> isl (snd (last new))))"
  by (induction es new out rule: follows.induct) (auto split: sum.splits if_splits)

lemma realises_run_steps:
  "AcceptCookieConsent \<notin> set sts \<Longrightarrow> \<forall>st\<in>set sts. accepted js st \<Longrightarrow>
     realises p (run_steps js d sts) (concat (map (script p) sts))"
  unfolding run_steps_def
  by (induction sts) (auto intro: realises_return realises_seq realises_step)






lemma accept_cookies_cases:
  assumes pg: "this_page s = VObj p"
    and run: "step_accept_cookies d s = (out, s')"
  shows "\<exists>new. frame s s' new \<and>
           (follows (script p AcceptCookieConsent) new out \<and>
              (\<exists>v. snd (hd new) = Inr v \<and> truthy v) \<or>
            out = Inr () \<and>
              (\<exists>r. new = [(IsVisible p acceptCookiesButton, r)] \<and>
                   \<not> (\<exists>v. r = Inr v \<and> truthy v)))"
proof -
  obtain r e1 where vis: "d (IsVisible p acceptCookiesButton) (env s) = (r, e1)"
    by (cases "d (IsVisible p acceptCookiesButton) (env s)")
  let ?s1 = "s\<lparr>env := e1, trace := trace s @ [(IsVisible p acceptCookiesButton, r)]\<rparr>"
  show ?thesis
  proof (cases "\<exists>v. r = Inr v \<and> truthy v")
    case False
    with pg run vis have "out = Inr ()" "s' = ?s1"
      by (auto simp: step_accept_cookies_def prog_defs split: sum.splits)
    with False show ?thesis
      by (intro exI [of _ "[(IsVisible p acceptCookiesButton, r)]"]) (simp add: frame_def)
  next
    case True
    then obtain v where v: "r = Inr v" "truthy v" by blast
    let ?rest = "bind (perform d (Click p acceptCookiesButton)) (\<lambda>_.
                 bind (perform d (WaitForTimeout p 1000)) (\<lambda>_. return ()))"
    have rest: "realises p ?rest
        [(Click p acceptCookiesButton, anything), (WaitForTimeout p 1000, anything)]"
      by (intro realises_call_seq realises_call)
    from pg run vis v have run': "?rest ?s1 = (out, s')"
      by (simp add: step_accept_cookies_def with_page_def catch_false_def perform_def
          bind_def [of "\<lambda>s. _ s"])
    have "this_page ?s1 = VObj p" using pg by simp
    from rest [unfolded realises_def, rule_format, OF this run']
    obtain new where fr: "frame ?s1 s' new"
      and fo: "follows [(Click p acceptCookiesButton, anything),
                        (WaitForTimeout p 1000, anything)] new out"
      by blast
    have "frame s s' ((IsVisible p acceptCookiesButton, r) # new)"
      using fr by (simp add: frame_def)
    moreover have "follows (script p AcceptCookieConsent)
        ((IsVisible p acceptCookiesButton, r) # new) out"
      using fo v by simp
    ultimately show ?thesis using v
      by (intro exI [of _ "(IsVisible p acceptCookiesButton, r) # new"]) simp
  qed
qed

lemma hashes_column:
  "hashes ([column] # map (\<lambda>label. [label]) labels) = map (\<lambda>label. [(column, label)]) labels"
  by (simp add: hashes_def)

lemma Before_sets_timeout:
  assumes "Before d s0 = (Inr (), s1)"
  shows "\<exists>q v. this_page s1 = VObj q \<and> last (trace s1) = (SetDefaultTimeout q 30000, Inr v)"
  using assms
  by (auto simp: Before_def bind_def call_method_def perform_def return_def throw_def
      split: val.splits sum.splits prod.splits)
lemmas hook_defs = bind_def call_method_def optional_method_def perform_def return_def throw_def



lemma follows_calls_subset:
  "follows es new out \<Longrightarrow> fst ` set new \<subseteq> fst ` set es"
  by (induction es new out rule: follows.induct) (auto split: sum.splits if_splits)





lemma follows_error_last:
  "follows es new out \<Longrightarrow> (c, Inl e) \<in> set new \<Longrightarrow> out = Inl e \<and> last new = (c, Inl e)"
  by (induction es new out rule: follows.induct) (auto split: sum.splits if_splits)

lemma faithful_append:
  "faithful d e (n1 @ n2) e' \<longleftrightarrow> (\<exists>e1. faithful d e n1 e1 \<and> faithful d e1 n2 e')"
  by (induction n1 arbitrary: e) auto

lemma only_perform: "P c \<Longrightarrow> only P d (perform d c)"
  by (auto simp: only_def perform_def frame_def split: prod.splits)

lemma only_return: "only P d (return x)"
  by (simp add: only_def return_def frame_def)

lemma only_throw: "only P d (throw e)"
  by (simp add: only_def throw_def frame_def)

lemma only_bind:
  assumes "only P d m" and "\<And>x. only P d (f x)"
  shows "only P d (bind m f)"
  unfolding only_def
proof (intro allI impI)
  fix s out s'
  assume run: "bind m f s = (out, s')"
  obtain r s1 where m: "m s = (r, s1)" by (cases "m s")
  from assms(1) [unfolded only_def, rule_format, OF m] obtain n1 where
    1: "frame s s1 n1" "faithful d (env s) n1 (env s1)" "\<forall>e\<in>set n1. P (fst e)"
    by blast
  show "\<exists>new. frame s s' new \<and> faithful d (env s) new (env s') \<and> (\<forall>e\<in>set new. P (fst e))"
  proof (cases r)
    case (Inl e)
    with run m 1 show ?thesis by (auto simp: bind_def)
  next
    case (Inr x)
    with run m have "f x s1 = (out, s')" by (simp add: bind_def)
    from assms(2) [unfolded only_def, rule_format, OF this] obtain n2 where
      2: "frame s1 s' n2" "faithful d (env s1) n2 (env s')" "\<forall>e\<in>set n2. P (fst e)"
      by blast
    from 1 2 have "faithful d (env s) (n1 @ n2) (env s')"
      by (auto simp: faithful_append)
    with 1 2 frame_trans [OF 1(1) 2(1)] show ?thesis
      by (intro exI [of _ "n1 @ n2"]) auto
  qed
qed


lemma only_mono: "only P d m \<Longrightarrow> (\<And>c. P c \<Longrightarrow> Q c) \<Longrightarrow> only Q d m"
  unfolding only_def by (metis (no_types, lifting))



lemma only_with_page:
  assumes "\<And>p. only P d (f p)"
  shows "only P d (with_page f)"
  unfolding only_def
proof (intro allI impI)
  fix s out s'
  assume run: "with_page f s = (out, s')"
  show "\<exists>new. frame s s' new \<and> faithful d (env s) new (env s') \<and> (\<forall>e\<in>set new. P (fst e))"
  proof (cases "\<exists>p. this_page s = VObj p")
    case True
    then obtain p where "this_page s = VObj p" by blast
    with run have "f p s = (out, s')" by (simp add: with_page_def)
    from assms [unfolded only_def, rule_format, OF this] show ?thesis .
  next
    case False
    with run have "s' = s" by (auto simp: with_page_def split: val.splits)
    then show ?thesis by (intro exI [of _ "[]"]) (simp add: frame_def)
  qed
qed

lemma only_for_each: "(\<And>x. only P d (body x)) \<Longrightarrow> only P d (for_each body xs)"
  by (induction xs) (auto intro: only_return only_bind)

lemma only_catch_false: "only P d m \<Longrightarrow> only P d (catch_false m)"
  by (auto simp: only_def catch_false_def split: prod.splits sum.splits)

lemma only_expect: "only P d (expect_toBe v x)" "only P d (expect_toContain v t)"
  by (auto simp: expect_toBe_def expect_toContain_def only_return only_throw split: val.splits)

lemma only_if: "only P d a \<Longrightarrow> only P d b \<Longrightarrow> only P d (if c then a else b)"
  by simp

lemmas only_intros = only_bind only_perform only_return only_throw only_with_page
  only_for_each only_catch_false only_expect only_if

lemma only_rows:
  "only page_call d (nav_item_row d p r)"
  "only page_call d (dropdown_row d col p r)"
  "only page_call d (focus_link d p l)"
  unfolding nav_item_row_def dropdown_row_def focus_link_def Let_def
  by (intro only_intros; simp add: page_call_def)+

lemma only_new_RegExp: "only P d (new_RegExp js n fl)"
  by (simp add: new_RegExp_def only_return only_throw)

lemma only_with_page_then:
  assumes "only P d arguments" and "\<And>p x. only P d (f p x)"
  shows "only P d (with_page_then arguments f)"
  unfolding only_def
proof (intro allI impI)
  fix s out s'
  assume run: "with_page_then arguments f s = (out, s')"
  have a: "only P d (bind arguments (f p))" for p
    by (intro only_bind assms)
  have b: "only P d (bind arguments (\<lambda>_. throw TypeError))"
    by (intro only_bind assms only_throw)
  have c: "only P d (throw TypeError)"
    by (rule only_throw)
  from run a [unfolded only_def, rule_format, of _ s out s']
    b [unfolded only_def, rule_format, of s out s']
    c [unfolded only_def, rule_format, of s out s']
  show "\<exists>new. frame s s' new \<and> faithful d (env s) new (env s') \<and> (\<forall>e\<in>set new. P (fst e))"
    by (cases "this_page s") (simp_all add: with_page_then_def throw_def)
qed

lemma only_run_step: "only page_call d (run_step js d st)"
proof (cases st)
  case AcceptCookieConsent
  then show ?thesis
    by (simp add: step_accept_cookies_def)
       (intro only_intros; simp add: page_call_def)
qed (simp_all add: step_navigate_def step_logo_visible_def
        step_logo_src_def step_logo_link_def step_nav_items_def step_button_visible_def
        step_link_visible_def step_link_points_to_def step_hover_nav_item_def
        step_services_visible_def step_impacts_visible_def step_click_nav_item_def
        step_click_link_def step_navigated_to_def step_title_contains_def
        step_keyboard_accessible_def step_aria_landmarks_def Let_def,
      (intro only_intros only_rows only_new_RegExp only_with_page_then
         | simp add: page_call_def)+)

lemma only_run_steps: "only page_call d (run_steps js d sts)"
  unfolding run_steps_def by (intro only_for_each only_run_step)










lemma frame_unique: "frame s s' a \<Longrightarrow> frame s s' b \<Longrightarrow> a = b"
  by (simp add: frame_def)

lemma script_calls: "c \<in> fst ` set (script p st) \<Longrightarrow> step_call p c"
  by (cases st)
     (auto simp: nav_item_script_def dropdown_script_def focus_script_def navLinks_def Let_def)

lemma rejected:
  assumes "\<not> accepted js st" and "this_page s = VObj p"
  shows "run_step js d st s = (Inl SyntaxError, s)"
  using assms
  by (cases st)
     (simp_all add: step_button_visible_def step_link_visible_def step_link_points_to_def
        with_page_then_def new_RegExp_rejected throw_def)

lemma run_step_cases:
  assumes pg: "this_page s = VObj p" and run: "run_step js d st s = (out, s')"
  shows "\<exists>new. frame s s' new \<and> faithful d (env s) new (env s') \<and>
           (\<forall>x\<in>set new. step_call p (fst x)) \<and>
           (if \<not> accepted js st then new = [] \<and> out = Inl SyntaxError
            else if st = AcceptCookieConsent then
              (\<exists>r. new = [(IsVisible p acceptCookiesButton, r)] \<and>
                   \<not> (\<exists>v. r = Inr v \<and> truthy v) \<and> out = Inr ()) \<or>
              (\<exists>v rest. new = (IsVisible p acceptCookiesButton, Inr v) # rest \<and> truthy v \<and>
                   follows (accept_script p) rest out)
            else follows (script p st) new out)"
proof -
  from only_run_step [unfolded only_def, rule_format, OF run] obtain new where
    fr: "frame s s' new" and fa: "faithful d (env s) new (env s')"
    by blast
  show ?thesis
  proof (cases "accepted js st")
    case False
    from rejected [OF False pg, of d] run have "out = Inl SyntaxError" "s' = s"
      by simp_all
    with fr have "new = []" by (simp add: frame_def)
    with fr fa False \<open>out = Inl SyntaxError\<close> show ?thesis
      by (intro exI [of _ new]) simp
  next
    case True
    show ?thesis
    proof (cases "st = AcceptCookieConsent")
      case False
      from realises_step [OF False True, of p d, unfolded realises_def, rule_format, OF pg run]
      obtain new' where fr': "frame s s' new'" and fo: "follows (script p st) new' out"
        by blast
      from frame_unique [OF fr fr'] fo have fo': "follows (script p st) new out"
        by simp
      from follows_calls_subset [OF fo'] script_calls [of _ p st]
      have "\<forall>x\<in>set new. step_call p (fst x)"
        by auto
      with fr fa fo' True False show ?thesis
        by (intro exI [of _ new]) simp
    next
      case cookie: True
      with run have run': "step_accept_cookies d s = (out, s')" by simp
      from accept_cookies_cases [OF pg run'] obtain new' where fr': "frame s s' new'"
        and cs: "follows (script p AcceptCookieConsent) new' out \<and>
                   (\<exists>v. snd (hd new') = Inr v \<and> truthy v) \<or>
                 out = Inr () \<and>
                   (\<exists>r. new' = [(IsVisible p acceptCookiesButton, r)] \<and>
                        \<not> (\<exists>v. r = Inr v \<and> truthy v))"
        by blast
      from frame_unique [OF fr fr'] have eq: "new' = new" by simp
      from cs [unfolded eq] show ?thesis
      proof
        assume a: "follows (script p AcceptCookieConsent) new out \<and>
                   (\<exists>v. snd (hd new) = Inr v \<and> truthy v)"
        then obtain v where v: "snd (hd new) = Inr v" "truthy v" by blast
        from a obtain rest where new: "new = (IsVisible p acceptCookiesButton, Inr v) # rest"
          using v by (cases new) auto
        with a v have fo: "follows (accept_script p) rest out"
          by (simp add: accept_script_def)
        from follows_calls_subset [OF fo] have "\<forall>x\<in>set rest. step_call p (fst x)"
          by (auto simp: accept_script_def)
        with new have "\<forall>x\<in>set new. step_call p (fst x)" by simp
        with fr fa fo new v True cookie show ?thesis
          by (intro exI [of _ new]) simp
      next
        assume "out = Inr () \<and>
                   (\<exists>r. new = [(IsVisible p acceptCookiesButton, r)] \<and>
                        \<not> (\<exists>v. r = Inr v \<and> truthy v))"
        with fr fa True cookie show ?thesis
          by (intro exI [of _ new]) auto
      qed
    qed
  qed
qed

lemma run_steps_calls:
  assumes "this_page s = VObj p" and "run_steps js d sts s = (out, s')"
  shows "\<exists>new. frame s s' new \<and> (\<forall>x\<in>set new. step_call p (fst x))"
  using assms
proof (induction sts arbitrary: s)
  case Nil
  then show ?case
    by (intro exI [of _ "[]"]) (simp add: run_steps_def return_def frame_def)
next
  case (Cons st sts)
  obtain r s1 where st: "run_step js d st s = (r, s1)" by (cases "run_step js d st s")
  from run_step_cases [OF Cons.prems(1) st] obtain n1 where
    1: "frame s s1 n1" "\<forall>x\<in>set n1. step_call p (fst x)"
    by blast
  show ?case
  proof (cases r)
    case (Inl e)
    with st Cons.prems(2) have "s' = s1" by (simp add: run_steps_def bind_def)
    with 1 show ?thesis by blast
  next
    case (Inr u)
    with st Cons.prems(2) have rest: "run_steps js d sts s1 = (out, s')"
      by (simp add: run_steps_def bind_def)
    from 1 Cons.prems(1) have "this_page s1 = VObj p" by (simp add: frame_def)
    from Cons.IH [OF this rest] obtain n2 where
      2: "frame s1 s' n2" "\<forall>x\<in>set n2. step_call p (fst x)"
      by blast
    from 1 2 frame_trans [OF 1(1) 2(1)] show ?thesis
      by (intro exI [of _ "n1 @ n2"]) auto
  qed
qed

lemma in_force_append: "in_force q cur (a @ b) = in_force q (in_force q cur a) b"
  by (induction a arbitrary: cur) auto

lemma step_call_sets_no_timeout: "step_call p c \<Longrightarrow> sets_timeout q (c, r) = None"
  by (cases c) (simp_all add: sets_timeout_def)

lemma in_force_quiet:
  "\<forall>x\<in>set new. sets_timeout q x = None \<Longrightarrow> in_force q cur new = cur"
  by (induction new arbitrary: cur) auto

lemma Before_passed:
  assumes "Before d s0 = (Inr (), s1)"
  shows "\<exists>q v pre. this_page s1 = VObj q \<and>
           trace s1 = trace s0 @ pre @ [(SetDefaultTimeout q 30000, Inr v)]"
  using assms
  by (auto simp: Before_def bind_def call_method_def perform_def return_def throw_def
      split: val.splits sum.splits prod.splits)

lemma timeout_kept:
  assumes b: "Before d s0 = (Inr (), s1)" and r: "run_steps js d sts s1 = (out, s2)"
  shows "\<exists>q v new. this_page s1 = VObj q \<and>
           last (trace s1) = (SetDefaultTimeout q 30000, Inr v) \<and>
           trace s2 = trace s1 @ new \<and> (\<forall>x\<in>set new. step_call q (fst x)) \<and>
           (\<forall>k\<le>length new. in_force q None (trace s1 @ take k new) = Some 30000)"
proof -
  from Before_passed [OF b] obtain q v pre where
    pg: "this_page s1 = VObj q" and
    tr: "trace s1 = trace s0 @ pre @ [(SetDefaultTimeout q 30000, Inr v)]"
    by blast
  from run_steps_calls [OF pg r] obtain new where
    fr: "frame s1 s2 new" and sc: "\<forall>x\<in>set new. step_call q (fst x)"
    by blast
  have set: "in_force q None (trace s1) = Some 30000"
    by (simp add: tr in_force_append sets_timeout_def)
  have "in_force q None (trace s1 @ take k new) = Some 30000" for k
  proof -
    have "\<forall>x\<in>set (take k new). sets_timeout q x = None"
      using sc step_call_sets_no_timeout [of q _ q]
      by (metis in_set_takeD prod.collapse)
    from in_force_quiet [OF this] set show ?thesis
      by (simp add: in_force_append)
  qed
  with pg tr fr sc show ?thesis
    by (intro exI [of _ q] exI [of _ v] exI [of _ new]) (simp add: frame_def)
qed

lemma load_trace:
  "trace (snd (load_step_definitions d s0)) =
     trace s0 @ [(CucumberSetDefaultTimeout 30000,
                  fst (d (CucumberSetDefaultTimeout 30000) (env s0)))]"
  by (simp add: load_step_definitions_def bind_def perform_def return_def
      split: prod.splits sum.splits)





lemma After_no_page:
  assumes "\<And>p. this_page s \<noteq> VObj p"
  shows "After d clock title (Some FAILED) s = (Inl TypeError, s)"
  using assms by (cases "this_page s") (auto simp: After_def hook_defs)













section \<open>The navigation-items step\<close>

text \<open>
  C1. On a table with the columns \<open>Navigation Item\<close> and \<open>URL\<close> the step goes through the
  rows in table order. For each row (label, URL) it asks the driver to assert that the
  link inside \<open>#header\<close> whose accessible name is exactly the label is visible, then
  asks it for the \<open>href\<close> of that link and requires the answer to be the URL string
  itself. The entries of the trace are the answers the driver gave; the step passes when
  every row is confirmed, and fails at the first row for which the driver raises or
  answers another value.
\<close>

theorem nav_items_checked:
  assumes "this_page s = VObj p"
    and "step_nav_items d
           ([''Navigation Item'', ''URL''] # map (\<lambda>(label, url). [label, url]) items) s
         = (out, s')"
  shows "\<exists>new. frame s s' new \<and> faithful d (env s) new (env s') \<and>
           follows
             (concat (map (\<lambda>(label, url).
                 [(ExpectToBeVisible p (header_link_exact label), anything),
                  (GetAttribute p (header_link_exact label) ''href'', is_val (VStr url))])
               items))
             new out"
proof -
  let ?t = "[''Navigation Item'', ''URL''] # map (\<lambda>(label, url). [label, url]) items"
  have run: "run_step (\<lambda>source flags. True) d (NavItemsVisible ?t) s = (out, s')"
    using assms(2) by simp
  from run_step_cases [OF assms(1) run] obtain new where
    "frame s s' new" "faithful d (env s) new (env s')"
    "follows (script p (NavItemsVisible ?t)) new out"
    by auto
  moreover have "script p (NavItemsVisible ?t) =
      concat (map (\<lambda>(label, url).
                 [(ExpectToBeVisible p (header_link_exact label), anything),
                  (GetAttribute p (header_link_exact label) ''href'', is_val (VStr url))])
               items)"
    by (simp only: script.simps hashes_nav_items)
       (simp add: nav_item_script_def header_link_exact_def cell_def cell_name_def
          case_prod_unfold comp_def Let_def)
  ultimately show ?thesis
    by auto
qed

theorem nav_items_checked_witness:
  "this_page (on_page header_navigation 2) = VObj 2 \<and>
   fst (step_nav_items static_page nav_items_table (on_page header_navigation 2)) = Inr () \<and>
   (\<exists>new. frame (on_page header_navigation 2)
            (snd (step_nav_items static_page nav_items_table (on_page header_navigation 2))) new \<and>
      faithful static_page header_navigation new
        (env (snd (step_nav_items static_page nav_items_table (on_page header_navigation 2)))) \<and>
      follows
        [(ExpectToBeVisible 2 (header_link_exact ''Digital Services''), anything),
         (GetAttribute 2 (header_link_exact ''Digital Services'') ''href'',
          is_val (VStr ''/digital-services'')),
         (ExpectToBeVisible 2 (header_link_exact ''Workday''), anything),
         (GetAttribute 2 (header_link_exact ''Workday'') ''href'', is_val (VStr ''/workday'')),
         (ExpectToBeVisible 2 (header_link_exact ''Industries''), anything),
         (GetAttribute 2 (header_link_exact ''Industries'') ''href'',
          is_val (VStr ''/industries'')),
         (ExpectToBeVisible 2 (header_link_exact ''Insights''), anything),
         (GetAttribute 2 (header_link_exact ''Insights'') ''href'', is_val (VStr ''/insights'')),
         (ExpectToBeVisible 2 (header_link_exact ''Careers''), anything),
         (GetAttribute 2 (header_link_exact ''Careers'') ''href'',
          is_val (VStr ''https://careers.kainos.com/gb/en''))]
        new (Inr ()))"
proof -
  let ?s = "on_page header_navigation 2"
  let ?r = "step_nav_items static_page nav_items_table ?s"
  have pg: "this_page ?s = VObj 2" and en: "env ?s = header_navigation"
    by (simp_all add: on_page_def)
  have out: "fst ?r = Inr ()"
    by code_simp
  have tbl: "nav_items_table =
      [''Navigation Item'', ''URL''] # map (\<lambda>(label, url). [label, url])
        [(''Digital Services'', ''/digital-services''), (''Workday'', ''/workday''),
         (''Industries'', ''/industries''), (''Insights'', ''/insights''),
         (''Careers'', ''https://careers.kainos.com/gb/en'')]"
    by (simp add: nav_items_table_def)
  have run: "step_nav_items static_page nav_items_table ?s = (Inr (), snd ?r)"
    using out by (simp add: prod_eq_iff)
  from nav_items_checked [OF pg run [unfolded tbl]] pg out show ?thesis
    by (simp add: nav_items_table_def en)
qed

section \<open>The logo steps\<close>

text \<open>
  C6. The three logo steps pass exactly when, in turn: the image \<open>#header img[alt="logo"]\<close>
  is asserted visible; its \<open>src\<close> attribute is a string that contains
  \<open>/globalassets/images/5_logos/kainos_logo.png\<close>; the link of the header named by the
  logo has the \<open>href\<close> attribute \<open>/\<close>.
\<close>

theorem logo_verified:
  assumes "this_page s = VObj p"
  shows "((fst (step_logo_visible d s) = Inr ()) =
            (\<exists>v. fst (d (ExpectToBeVisible p logo) (env s)) = Inr v)) \<and>
         ((fst (step_logo_src d s) = Inr ()) =
            (\<exists>a b. fst (d (GetAttribute p logo ''src'') (env s)) =
               Inr (VStr (a @ ''/globalassets/images/5_logos/kainos_logo.png'' @ b)))) \<and>
         ((fst (step_logo_link d s) = Inr ()) =
            (\<exists>v. fst (d (ExpectToHaveAttribute p logoLink ''href'' ''/'') (env s)) = Inr v))"
  using assms
  by (auto simp: step_logo_visible_def step_logo_src_def step_logo_link_def
        with_page_def bind_def perform_def return_def throw_def expect_toContain_def
        str_includes_iff split: prod.splits sum.splits val.splits)

theorem logo_verified_witness:
  "this_page (on_page header_logo 2) = VObj 2 \<and>
   fst (step_logo_visible static_page (on_page header_logo 2)) = Inr () \<and>
   fst (step_logo_src static_page (on_page header_logo 2)) = Inr () \<and>
   fst (step_logo_link static_page (on_page header_logo 2)) = Inr () \<and>
   (\<exists>a b. fst (static_page (GetAttribute 2 logo ''src'') header_logo) =
      Inr (VStr (a @ ''/globalassets/images/5_logos/kainos_logo.png'' @ b)))"
proof -
  let ?s = "on_page header_logo 2"
  have pg: "this_page ?s = VObj 2"
    by (simp add: on_page_def)
  have env: "env ?s = header_logo"
    by (simp add: on_page_def)
  have 1: "fst (step_logo_visible static_page ?s) = Inr ()"
    by code_simp
  have 2: "fst (step_logo_src static_page ?s) = Inr ()"
    by code_simp
  have 3: "fst (step_logo_link static_page ?s) = Inr ()"
    by code_simp
  from logo_verified [OF pg, of static_page] pg 1 2 3 show ?thesis
    by (simp only: env) simp
qed

section \<open>The dropdown steps\<close>

text \<open>
  C7. The scenario hovers the header link named exactly \<open>Digital Services\<close>, waits, and
  then asks the driver, for every label of the services table and then for every label of
  the impacts table, in table order, to assert that a link with that name is visible. The
  entries of the trace are the answers the driver gave; the steps pass when every one of
  the labels is confirmed, and fail at the first that is not. With the six services and
  four impacts of the feature file all ten labels are checked.
\<close>

theorem dropdown_labels_checked:
  assumes "this_page s = VObj p"
    and "run_steps js d
           [HoverNavItem ''Digital Services'',
            ServicesVisible ([''Service''] # map (\<lambda>label. [label]) services),
            ImpactsVisible ([''Impact''] # map (\<lambda>label. [label]) impacts)] s = (out, s')"
  shows "\<exists>new. frame s s' new \<and> faithful d (env s) new (env s') \<and>
           follows
             ([(Hover p (header_link_exact ''Digital Services''), anything),
               (WaitForTimeout p 500, anything)] @
              map (\<lambda>label.
                     (ExpectToBeVisible p
                        (GetByRole ''link'' \<lparr>name = Some (Str label), exact = False\<rparr>),
                      anything))
                (services @ impacts))
             new out"
proof -
  let ?sts = "[HoverNavItem ''Digital Services'',
               ServicesVisible ([''Service''] # map (\<lambda>label. [label]) services),
               ImpactsVisible ([''Impact''] # map (\<lambda>label. [label]) impacts)]"
  have "realises p (run_steps js d ?sts) (concat (map (script p) ?sts))"
    by (rule realises_run_steps) simp_all
  from this [unfolded realises_def, rule_format, OF assms]
  obtain new where fr: "frame s s' new" and fo: "follows (concat (map (script p) ?sts)) new out"
    by blast
  from only_run_steps [unfolded only_def, rule_format, OF assms(2)] obtain new' where
    fr': "frame s s' new'" and fa: "faithful d (env s) new' (env s')"
    by blast
  from frame_unique [OF fr fr'] fa have fa': "faithful d (env s) new (env s')"
    by simp
  have "concat (map (script p) ?sts) =
      [(Hover p (header_link_exact ''Digital Services''), anything),
       (WaitForTimeout p 500, anything)] @
      map (\<lambda>label.
             (ExpectToBeVisible p
                (GetByRole ''link'' \<lparr>name = Some (Str label), exact = False\<rparr>),
              anything))
        (services @ impacts)"
    by (simp only: list.map script.simps hashes_column)
       (simp add: dropdown_script_def cell_name_def comp_def)
  with fr fo fa' show ?thesis
    by auto
qed

theorem dropdown_labels_checked_witness:
  "this_page (on_page (header_navigation @ dropdown_menu) 2) = VObj 2 \<and>
   fst (run_steps ecmascript_grammar static_page
          [HoverNavItem ''Digital Services'', ServicesVisible services_table,
           ImpactsVisible impacts_table] (on_page (header_navigation @ dropdown_menu) 2)) = Inr () \<and>
   (\<exists>new. frame (on_page (header_navigation @ dropdown_menu) 2)
      (snd (run_steps ecmascript_grammar static_page
          [HoverNavItem ''Digital Services'', ServicesVisible services_table,
           ImpactsVisible impacts_table] (on_page (header_navigation @ dropdown_menu) 2))) new \<and>
      faithful static_page (header_navigation @ dropdown_menu) new
        (env (snd (run_steps ecmascript_grammar static_page
          [HoverNavItem ''Digital Services'', ServicesVisible services_table,
           ImpactsVisible impacts_table] (on_page (header_navigation @ dropdown_menu) 2)))) \<and>
      follows
        ([(Hover 2 (header_link_exact ''Digital Services''), anything),
          (WaitForTimeout 2 500, anything)] @
         map (\<lambda>label.
                (ExpectToBeVisible 2
                   (GetByRole ''link'' \<lparr>name = Some (Str label), exact = False\<rparr>),
                 anything))
           [''Digital Advisory'', ''Cloud and engineering'', ''Data and AI'',
            ''AI Business Solutions'', ''User-centred design'', ''Managed services'',
            ''Building digital transformation'', ''Driving continuous improvement'',
            ''Improving business performance'', ''Improving customer engagement''])
        new (Inr ()))"
proof -
  let ?s = "on_page (header_navigation @ dropdown_menu) 2"
  let ?r = "run_steps ecmascript_grammar static_page
          [HoverNavItem ''Digital Services'', ServicesVisible services_table,
           ImpactsVisible impacts_table] ?s"
  have pg: "this_page ?s = VObj 2" and en: "env ?s = header_navigation @ dropdown_menu"
    by (simp_all add: on_page_def)
  have out: "fst ?r = Inr ()"
    by code_simp
  have s: "services_table = [''Service''] # map (\<lambda>label. [label])
      [''Digital Advisory'', ''Cloud and engineering'', ''Data and AI'',
       ''AI Business Solutions'', ''User-centred design'', ''Managed services'']"
    by (simp add: services_table_def)
  have i: "impacts_table = [''Impact''] # map (\<lambda>label. [label])
      [''Building digital transformation'', ''Driving continuous improvement'',
       ''Improving business performance'', ''Improving customer engagement'']"
    by (simp add: impacts_table_def)
  have run: "?r = (Inr (), snd ?r)"
    using out by (simp add: prod_eq_iff)
  from dropdown_labels_checked [OF pg run [unfolded s i]] pg out show ?thesis
    by (simp add: services_table_def impacts_table_def en)
qed

section \<open>Calls and frame of a step\<close>




section \<open>Timeouts and failure of a step\<close>

text \<open>
  The claim C4 that every step fails when an element is not found does not hold for the
  cookie step: on a page without the banner the button is not found and the step passes.
\<close>

theorem fails_when_not_found_counterexample:
  "resolve header_right_side acceptCookiesButton = Some [] \<and>
   fst (run_step ecmascript_grammar static_page AcceptCookieConsent
          (on_page header_right_side 2)) = Inr ()"
  by code_simp

text \<open>
  C4, as amended. The code fixes the timeout window at 30000 milliseconds in the two
  places the claim names. Loading the step definitions hands 30000 to cucumber-js as the
  default timeout of steps, in one call. A Before hook that passes ends with the call that
  sets the default timeout of the new page to 30000; the steps of the scenario call only
  methods of that page and none of them sets a timeout, so 30000 is the default in force
  on the page before and after every call of every step. When a call raises, as the
  library does when an element is not found or an assertion does not hold within the
  window, every step other than the cookie step fails: the error is the outcome of the
  step, the call that raised is the last one made, and a step that passes has made every
  call of its script and had every answer accepted; the entries of the trace are the
  answers the driver gave, so nothing is retried and nothing is recovered. A step also
  fails, before any call, when its name argument is not a regular expression. The cookie
  step instead passes, after the one call, when the check of its button raises or does not
  give a true value; when the check gives a true value it clicks and waits and fails when
  one of these raises.
\<close>

theorem timeout_and_fail_fast:
  assumes "this_page s = VObj p" and "run_step js d st s = (out, s')"
  shows
    "(\<forall>s0. \<exists>r. trace (snd (load_step_definitions d s0)) =
               trace s0 @ [(CucumberSetDefaultTimeout 30000, r)]) \<and>
     (\<forall>s0 s1 sts out2 s2.
        Before d s0 = (Inr (), s1) \<longrightarrow> run_steps js d sts s1 = (out2, s2) \<longrightarrow>
        (\<exists>q v new. this_page s1 = VObj q \<and>
           last (trace s1) = (SetDefaultTimeout q 30000, Inr v) \<and>
           trace s2 = trace s1 @ new \<and> (\<forall>x\<in>set new. step_call q (fst x)) \<and>
           (\<forall>k\<le>length new. in_force q None (trace s1 @ take k new) = Some 30000))) \<and>
     (\<exists>new. frame s s' new \<and> faithful d (env s) new (env s') \<and>
        (if \<not> accepted js st then new = [] \<and> out = Inl SyntaxError
         else if st = AcceptCookieConsent then
           (\<exists>r. new = [(IsVisible p acceptCookiesButton, r)] \<and>
                \<not> (\<exists>v. r = Inr v \<and> truthy v) \<and> out = Inr ()) \<or>
           (\<exists>v rest. new = (IsVisible p acceptCookiesButton, Inr v) # rest \<and> truthy v \<and>
                follows (accept_script p) rest out)
         else follows (script p st) new out \<and>
              (\<forall>c e. (c, Inl e) \<in> set new \<longrightarrow> out = Inl e \<and> last new = (c, Inl e)) \<and>
              (out = Inr () \<longrightarrow> map fst new = map fst (script p st))))"
proof (intro conjI allI impI)
  fix s0 :: "'a state"
  show "\<exists>r. trace (snd (load_step_definitions d s0)) =
               trace s0 @ [(CucumberSetDefaultTimeout 30000, r)]"
    by (simp add: load_trace)
next
  fix s0 s1 :: "'a state" and sts out2 s2
  assume "Before d s0 = (Inr (), s1)" and "run_steps js d sts s1 = (out2, s2)"
  then show "\<exists>q v new. this_page s1 = VObj q \<and>
           last (trace s1) = (SetDefaultTimeout q 30000, Inr v) \<and>
           trace s2 = trace s1 @ new \<and> (\<forall>x\<in>set new. step_call q (fst x)) \<and>
           (\<forall>k\<le>length new. in_force q None (trace s1 @ take k new) = Some 30000)"
    by (rule timeout_kept)
next
  from run_step_cases [OF assms] obtain new where
    fr: "frame s s' new" and fa: "faithful d (env s) new (env s')" and
    cs: "if \<not> accepted js st then new = [] \<and> out = Inl SyntaxError
         else if st = AcceptCookieConsent then
           (\<exists>r. new = [(IsVisible p acceptCookiesButton, r)] \<and>
                \<not> (\<exists>v. r = Inr v \<and> truthy v) \<and> out = Inr ()) \<or>
           (\<exists>v rest. new = (IsVisible p acceptCookiesButton, Inr v) # rest \<and> truthy v \<and>
                follows (accept_script p) rest out)
         else follows (script p st) new out"
    by blast
  let ?cookie = "(\<exists>r. new = [(IsVisible p acceptCookiesButton, r)] \<and>
                \<not> (\<exists>v. r = Inr v \<and> truthy v) \<and> out = Inr ()) \<or>
           (\<exists>v rest. new = (IsVisible p acceptCookiesButton, Inr v) # rest \<and> truthy v \<and>
                follows (accept_script p) rest out)"
  let ?other = "follows (script p st) new out \<and>
              (\<forall>c e. (c, Inl e) \<in> set new \<longrightarrow> out = Inl e \<and> last new = (c, Inl e)) \<and>
              (out = Inr () \<longrightarrow> map fst new = map fst (script p st))"
  have "if \<not> accepted js st then new = [] \<and> out = Inl SyntaxError
        else if st = AcceptCookieConsent then ?cookie else ?other"
  proof (cases "accepted js st")
    case False
    with cs show ?thesis by simp
  next
    case acc: True
    show ?thesis
    proof (cases "st = AcceptCookieConsent")
      case True
      with cs acc have ?cookie by simp
      with acc True show ?thesis by simp
    next
      case False
      with cs acc have fo: "follows (script p st) new out" by simp
      have ?other
      proof (intro conjI allI impI)
        show "follows (script p st) new out" by (rule fo)
      next
        fix c e
        assume "(c, Inl e) \<in> set new"
        from follows_error_last [OF fo this]
        show "out = Inl e" and "last new = (c, Inl e)" by simp_all
      next
        assume "out = Inr ()"
        with fo follows_passed [of "script p st" new]
        show "map fst new = map fst (script p st)" by simp
      qed
      with acc False show ?thesis by simp
    qed
  qed
  with fr fa show "\<exists>new. frame s s' new \<and> faithful d (env s) new (env s') \<and>
        (if \<not> accepted js st then new = [] \<and> out = Inl SyntaxError
         else if st = AcceptCookieConsent then
           (\<exists>r. new = [(IsVisible p acceptCookiesButton, r)] \<and>
                \<not> (\<exists>v. r = Inr v \<and> truthy v) \<and> out = Inr ()) \<or>
           (\<exists>v rest. new = (IsVisible p acceptCookiesButton, Inr v) # rest \<and> truthy v \<and>
                follows (accept_script p) rest out)
         else follows (script p st) new out \<and>
              (\<forall>c e. (c, Inl e) \<in> set new \<longrightarrow> out = Inl e \<and> last new = (c, Inl e)) \<and>
              (out = Inr () \<longrightarrow> map fst new = map fst (script p st)))"
    by (intro exI [of _ new] conjI)
qed

theorem timeout_and_fail_fast_witness:
  "this_page (on_page header_navigation 2) = VObj 2 \<and>
   fst (Before handles (initial 0\<lparr>browser := VObj 0\<rparr>)) = Inr () \<and>
   (\<exists>q v new.
      this_page (snd (Before handles (initial 0\<lparr>browser := VObj 0\<rparr>))) = VObj q \<and>
      last (trace (snd (Before handles (initial 0\<lparr>browser := VObj 0\<rparr>)))) =
        (SetDefaultTimeout q 30000, Inr v) \<and>
      trace (snd (run_steps ecmascript_grammar handles [NavigateToHomepage, LogoVisible]
                    (snd (Before handles (initial 0\<lparr>browser := VObj 0\<rparr>))))) =
        trace (snd (Before handles (initial 0\<lparr>browser := VObj 0\<rparr>))) @ new \<and>
      in_force q None
        (trace (snd (Before handles (initial 0\<lparr>browser := VObj 0\<rparr>))) @ new) = Some 30000) \<and>
   fst (run_step ecmascript_grammar static_page LogoVisible (on_page header_navigation 2)) =
     Inl (LibraryError ''Timeout exceeded'') \<and>
   (\<exists>new. frame (on_page header_navigation 2)
            (snd (run_step ecmascript_grammar static_page LogoVisible
                    (on_page header_navigation 2))) new \<and>
      last new = (ExpectToBeVisible 2 logo, Inl (LibraryError ''Timeout exceeded'')))"
proof -
  let ?b = "Before handles (initial 0\<lparr>browser := VObj 0\<rparr>)"
  let ?st = "run_steps ecmascript_grammar handles [NavigateToHomepage, LogoVisible] (snd ?b)"
  let ?s = "on_page header_navigation 2"
  let ?r = "run_step ecmascript_grammar static_page LogoVisible ?s"
  have b1: "fst ?b = Inr ()"
    by code_simp
  then have b: "?b = (Inr (), snd ?b)"
    by (simp add: prod_eq_iff)
  have st: "?st = (fst ?st, snd ?st)"
    by simp
  have out: "fst ?r = Inl (LibraryError ''Timeout exceeded'')"
    by code_simp
  then have run: "?r = (Inl (LibraryError ''Timeout exceeded''), snd ?r)"
    by (simp add: prod_eq_iff)
  have tr: "trace (snd ?r) = [(ExpectToBeVisible 2 logo, Inl (LibraryError ''Timeout exceeded''))]"
    by code_simp
  have pg: "this_page ?s = VObj 2" and pgh: "this_page (on_page (0::nat) 2) = VObj 2"
    by (simp_all add: on_page_def)
  have rh: "run_step ecmascript_grammar handles LogoVisible (on_page 0 2) =
      (fst (run_step ecmascript_grammar handles LogoVisible (on_page 0 2)),
       snd (run_step ecmascript_grammar handles LogoVisible (on_page 0 2)))"
    by simp
  note t = timeout_and_fail_fast [OF pg run]
  from timeout_and_fail_fast [OF pgh rh] b st obtain q v new where
    1: "this_page (snd ?b) = VObj q" "last (trace (snd ?b)) = (SetDefaultTimeout q 30000, Inr v)"
    "trace (snd ?st) = trace (snd ?b) @ new"
    "\<forall>k\<le>length new. in_force q None (trace (snd ?b) @ take k new) = Some 30000"
    by blast
  from 1(4) have "in_force q None (trace (snd ?b) @ new) = Some 30000"
    by (metis order_refl take_all)
  with 1 have a: "\<exists>q v new.
      this_page (snd ?b) = VObj q \<and>
      last (trace (snd ?b)) = (SetDefaultTimeout q 30000, Inr v) \<and>
      trace (snd ?st) = trace (snd ?b) @ new \<and>
      in_force q None (trace (snd ?b) @ new) = Some 30000"
    by blast
  from t obtain new where fr: "frame ?s (snd ?r) new"
    by blast
  then have "new = trace (snd ?r)"
    by (simp add: frame_def on_page_def)
  with fr tr have c: "\<exists>new. frame ?s (snd ?r) new \<and>
      last new = (ExpectToBeVisible 2 logo, Inl (LibraryError ''Timeout exceeded''))"
    by (intro exI [of _ new]) simp
  from pg b1 a out c show ?thesis
    by (intro conjI)
qed

section \<open>The cookie step\<close>




section \<open>Names given to the button and link steps\<close>

text \<open>
  C10. The steps \<open>the {string} button should be visible\<close>, \<open>the {string} link should be
  visible\<close> and \<open>the {string} link should point to {string}\<close> hand their name to
  \<open>getByRole\<close> as \<open>new RegExp(name, 'i')\<close>, with no exact match asked for, and pass
  exactly when the driver confirms the assertion on that locator; the one call and its
  answer are what the step adds to the trace. So the name is tested against the accessible
  name as a case-insensitive, unanchored regular expression and not compared as a literal.
  On the reference page the argument \<open>Share icons\<close> selects the button named \<open>Open Share
  icons modal window\<close>, which an exact name would not select, and \<open>in touch\<close> the link
  \<open>Get in touch\<close>; upper case in the argument matches lower case in the name; and
  metacharacters count: \<open>S.arch\<close> and \<open>G.t in\<close> select a button and a link although no
  name contains that text, \<open>^in touch\<close> selects nothing, and \<open>S.*h\<close> and \<open>s$\<close> match
  several elements and fail the step in strict mode. A name that is not a regular
  expression, such as \<open>C++\<close>, makes the constructor throw: the step fails with a
  SyntaxError and asks the driver nothing.
\<close>

theorem name_argument_is_regexp:
  assumes "this_page s = VObj p"
  shows
   "((fst (step_button_visible js d n s) = Inr ()) =
       (js n ''i'' \<and>
        (\<exists>v. fst (d (ExpectToBeVisible p
                 (GetByRole ''button'' \<lparr>name = Some (RegExp n ''i''), exact = False\<rparr>))
               (env s)) = Inr v))) \<and>
    ((fst (step_link_visible js d n s) = Inr ()) =
       (js n ''i'' \<and>
        (\<exists>v. fst (d (ExpectToBeVisible p
                 (GetByRole ''link'' \<lparr>name = Some (RegExp n ''i''), exact = False\<rparr>))
               (env s)) = Inr v))) \<and>
    ((fst (step_link_points_to js d n u s) = Inr ()) =
       (js n ''i'' \<and>
        (\<exists>v. fst (d (ExpectToHaveAttribute p
                 (GetByRole ''link'' \<lparr>name = Some (RegExp n ''i''), exact = False\<rparr>)
                 ''href'' u)
               (env s)) = Inr v))) \<and>
    (js n ''i'' \<longrightarrow>
       trace (snd (step_button_visible js d n s)) =
         trace s @
         [(ExpectToBeVisible p
             (GetByRole ''button'' \<lparr>name = Some (RegExp n ''i''), exact = False\<rparr>),
           fst (d (ExpectToBeVisible p
                 (GetByRole ''button'' \<lparr>name = Some (RegExp n ''i''), exact = False\<rparr>))
               (env s)))] \<and>
       trace (snd (step_link_visible js d n s)) =
         trace s @
         [(ExpectToBeVisible p
             (GetByRole ''link'' \<lparr>name = Some (RegExp n ''i''), exact = False\<rparr>),
           fst (d (ExpectToBeVisible p
                 (GetByRole ''link'' \<lparr>name = Some (RegExp n ''i''), exact = False\<rparr>))
               (env s)))] \<and>
       trace (snd (step_link_points_to js d n u s)) =
         trace s @
         [(ExpectToHaveAttribute p
             (GetByRole ''link'' \<lparr>name = Some (RegExp n ''i''), exact = False\<rparr>) ''href'' u,
           fst (d (ExpectToHaveAttribute p
                 (GetByRole ''link'' \<lparr>name = Some (RegExp n ''i''), exact = False\<rparr>)
                 ''href'' u)
               (env s)))]) \<and>
    (\<not> js n ''i'' \<longrightarrow>
       step_button_visible js d n s = (Inl SyntaxError, s) \<and>
       step_link_visible js d n s = (Inl SyntaxError, s) \<and>
       step_link_points_to js d n u s = (Inl SyntaxError, s)) \<and>
    fst (step_button_visible ecmascript_grammar static_page ''Share icons''
           (on_page header_right_side 2)) = Inr () \<and>
    resolve header_right_side
      (GetByRole ''button'' \<lparr>name = Some (RegExp ''Share icons'' ''i''), exact = False\<rparr>) =
      Some [button_element ''Open Share icons modal window'' [''#header'']] \<and>
    resolve header_right_side
      (GetByRole ''button'' \<lparr>name = Some (Str ''Share icons''), exact = True\<rparr>) = Some [] \<and>
    fst (step_button_visible ecmascript_grammar static_page ''S.arch''
           (on_page header_right_side 2)) = Inr () \<and>
    resolve header_right_side
      (GetByRole ''button'' \<lparr>name = Some (Str ''S.arch''), exact = False\<rparr>) = Some [] \<and>
    fst (step_button_visible ecmascript_grammar static_page ''S.*h''
           (on_page header_right_side 2)) = Inl (LibraryError ''strict mode violation'') \<and>
    fst (step_button_visible ecmascript_grammar static_page ''Search''
           (on_page header_right_side 2)) = Inr () \<and>
    step_button_visible ecmascript_grammar static_page ''C++'' (on_page header_right_side 2) =
      (Inl SyntaxError, on_page header_right_side 2) \<and>
    fst (step_link_visible ecmascript_grammar static_page ''IN TOUCH''
           (on_page header_right_side 2)) = Inr () \<and>
    fst (step_link_visible ecmascript_grammar static_page ''G.t in''
           (on_page header_right_side 2)) = Inr () \<and>
    resolve header_right_side
      (GetByRole ''link'' \<lparr>name = Some (Str ''G.t in''), exact = False\<rparr>) = Some [] \<and>
    fst (step_link_visible ecmascript_grammar static_page ''^in touch''
           (on_page header_right_side 2)) = Inl (LibraryError ''Timeout exceeded'') \<and>
    fst (step_link_visible ecmascript_grammar static_page ''s$''
           (on_page header_navigation 2)) = Inl (LibraryError ''strict mode violation'') \<and>
    fst (step_link_points_to ecmascript_grammar static_page ''in touch'' ''/contact-us''
           (on_page header_right_side 2)) = Inr () \<and>
    fst (step_link_points_to ecmascript_grammar static_page ''^work'' ''/workday''
           (on_page header_navigation 2)) = Inr () \<and>
    fst (step_link_points_to ecmascript_grammar static_page ''^work'' ''/work''
           (on_page header_navigation 2)) = Inl (LibraryError ''Timeout exceeded'') \<and>
    fst (step_link_points_to ecmascript_grammar static_page ''s$'' ''/insights''
           (on_page header_navigation 2)) = Inl (LibraryError ''strict mode violation'')"
proof -
  let ?B = "ExpectToBeVisible p
              (GetByRole ''button'' \<lparr>name = Some (RegExp n ''i''), exact = False\<rparr>)"
  let ?L = "ExpectToBeVisible p
              (GetByRole ''link'' \<lparr>name = Some (RegExp n ''i''), exact = False\<rparr>)"
  let ?P = "ExpectToHaveAttribute p
              (GetByRole ''link'' \<lparr>name = Some (RegExp n ''i''), exact = False\<rparr>) ''href'' u"
  have ask: "bind (perform d c) (\<lambda>_. return ()) s =
      (case fst (d c (env s)) of Inl e \<Rightarrow> Inl e | Inr v \<Rightarrow> Inr (),
       s\<lparr>env := snd (d c (env s)), trace := trace s @ [(c, fst (d c (env s)))]\<rparr>)" for c
    by (simp add: bind_def perform_def return_def split: prod.splits sum.splits)
  have yes: "step_button_visible js d n s = bind (perform d ?B) (\<lambda>_. return ()) s"
    "step_link_visible js d n s = bind (perform d ?L) (\<lambda>_. return ()) s"
    "step_link_points_to js d n u s = bind (perform d ?P) (\<lambda>_. return ()) s"
    if "js n ''i''"
    using that assms
    by (simp_all add: step_button_visible_def step_link_visible_def step_link_points_to_def
        with_page_then_def new_RegExp_accepted)
  have no: "step_button_visible js d n s = (Inl SyntaxError, s)"
    "step_link_visible js d n s = (Inl SyntaxError, s)"
    "step_link_points_to js d n u s = (Inl SyntaxError, s)"
    if "\<not> js n ''i''"
    using that assms
    by (simp_all add: step_button_visible_def step_link_visible_def step_link_points_to_def
        with_page_then_def new_RegExp_rejected throw_def)
  have a1: "(fst (step_button_visible js d n s) = Inr ()) =
       (js n ''i'' \<and> (\<exists>v. fst (d ?B (env s)) = Inr v))"
    by (cases "js n ''i''") (auto simp: yes no ask split: sum.splits)
  have a2: "(fst (step_link_visible js d n s) = Inr ()) =
       (js n ''i'' \<and> (\<exists>v. fst (d ?L (env s)) = Inr v))"
    by (cases "js n ''i''") (auto simp: yes no ask split: sum.splits)
  have a3: "(fst (step_link_points_to js d n u s) = Inr ()) =
       (js n ''i'' \<and> (\<exists>v. fst (d ?P (env s)) = Inr v))"
    by (cases "js n ''i''") (auto simp: yes no ask split: sum.splits)
  have a4: "js n ''i'' \<longrightarrow>
       trace (snd (step_button_visible js d n s)) = trace s @ [(?B, fst (d ?B (env s)))] \<and>
       trace (snd (step_link_visible js d n s)) = trace s @ [(?L, fst (d ?L (env s)))] \<and>
       trace (snd (step_link_points_to js d n u s)) = trace s @ [(?P, fst (d ?P (env s)))]"
    by (simp add: yes ask)
  have a5: "\<not> js n ''i'' \<longrightarrow>
       step_button_visible js d n s = (Inl SyntaxError, s) \<and>
       step_link_visible js d n s = (Inl SyntaxError, s) \<and>
       step_link_points_to js d n u s = (Inl SyntaxError, s)"
    by (simp add: no)
  have e1: "fst (step_button_visible ecmascript_grammar static_page ''Share icons''
           (on_page header_right_side 2)) = Inr ()"
    by code_simp
  have e2: "resolve header_right_side
      (GetByRole ''button'' \<lparr>name = Some (RegExp ''Share icons'' ''i''), exact = False\<rparr>) =
      Some [button_element ''Open Share icons modal window'' [''#header'']]"
    by code_simp
  have e3: "resolve header_right_side
      (GetByRole ''button'' \<lparr>name = Some (Str ''Share icons''), exact = True\<rparr>) = Some []"
    by code_simp
  have e4: "fst (step_button_visible ecmascript_grammar static_page ''S.arch''
           (on_page header_right_side 2)) = Inr ()"
    by code_simp
  have e5: "resolve header_right_side
      (GetByRole ''button'' \<lparr>name = Some (Str ''S.arch''), exact = False\<rparr>) = Some []"
    by code_simp
  have e6: "fst (step_button_visible ecmascript_grammar static_page ''S.*h''
           (on_page header_right_side 2)) = Inl (LibraryError ''strict mode violation'')"
    by code_simp
  have e7: "fst (step_button_visible ecmascript_grammar static_page ''Search''
           (on_page header_right_side 2)) = Inr ()"
    by code_simp
  have e8: "step_button_visible ecmascript_grammar static_page ''C++''
      (on_page header_right_side 2) = (Inl SyntaxError, on_page header_right_side 2)"
    by code_simp
  have e9: "fst (step_link_visible ecmascript_grammar static_page ''IN TOUCH''
           (on_page header_right_side 2)) = Inr ()"
    by code_simp
  have e10: "fst (step_link_visible ecmascript_grammar static_page ''G.t in''
           (on_page header_right_side 2)) = Inr ()"
    by code_simp
  have e11: "resolve header_right_side
      (GetByRole ''link'' \<lparr>name = Some (Str ''G.t in''), exact = False\<rparr>) = Some []"
    by code_simp
  have e12: "fst (step_link_visible ecmascript_grammar static_page ''^in touch''
           (on_page header_right_side 2)) = Inl (LibraryError ''Timeout exceeded'')"
    by code_simp
  have e13: "fst (step_link_visible ecmascript_grammar static_page ''s$''
           (on_page header_navigation 2)) = Inl (LibraryError ''strict mode violation'')"
    by code_simp
  have e14: "fst (step_link_points_to ecmascript_grammar static_page ''in touch''
           ''/contact-us'' (on_page header_right_side 2)) = Inr ()"
    by code_simp
  have e15: "fst (step_link_points_to ecmascript_grammar static_page ''^work'' ''/workday''
           (on_page header_navigation 2)) = Inr ()"
    by code_simp
  have e16: "fst (step_link_points_to ecmascript_grammar static_page ''^work'' ''/work''
           (on_page header_navigation 2)) = Inl (LibraryError ''Timeout exceeded'')"
    by code_simp
  have e17: "fst (step_link_points_to ecmascript_grammar static_page ''s$'' ''/insights''
           (on_page header_navigation 2)) = Inl (LibraryError ''strict mode violation'')"
    by code_simp
  from a1 a2 a3 a4 a5 e1 e2 e3 e4 e5 e6 e7 e8 e9 e10 e11 e12 e13 e14 e15 e16 e17
  show ?thesis
    by (intro conjI)
qed

theorem name_argument_is_regexp_witness:
  "this_page (on_page header_right_side 2) = VObj 2 \<and>
   ecmascript_grammar ''in touch'' ''i'' \<and>
   \<not> ecmascript_grammar ''C++'' ''i'' \<and>
   fst (step_link_points_to ecmascript_grammar static_page ''in touch'' ''/contact-us''
          (on_page header_right_side 2)) = Inr () \<and>
   (\<exists>v. fst (static_page
               (ExpectToHaveAttribute 2
                  (GetByRole ''link'' \<lparr>name = Some (RegExp ''in touch'' ''i''), exact = False\<rparr>)
                  ''href'' ''/contact-us'')
               header_right_side) = Inr v) \<and>
   trace (snd (step_link_visible ecmascript_grammar static_page ''in touch''
                 (on_page header_right_side 2))) =
     [(ExpectToBeVisible 2
         (GetByRole ''link'' \<lparr>name = Some (RegExp ''in touch'' ''i''), exact = False\<rparr>),
       fst (static_page
              (ExpectToBeVisible 2
                 (GetByRole ''link'' \<lparr>name = Some (RegExp ''in touch'' ''i''), exact = False\<rparr>))
              header_right_side))] \<and>
   step_link_visible ecmascript_grammar static_page ''C++'' (on_page header_right_side 2) =
     (Inl SyntaxError, on_page header_right_side 2)"
proof -
  let ?s = "on_page header_right_side 2"
  have pg: "this_page ?s = VObj 2" and en: "env ?s = header_right_side"
    and tr: "trace ?s = []"
    by (simp_all add: on_page_def)
  have ok: "ecmascript_grammar ''in touch'' ''i''"
    by code_simp
  have bad: "\<not> ecmascript_grammar ''C++'' ''i''"
    by code_simp
  note a = name_argument_is_regexp
    [OF pg, of ecmascript_grammar static_page "''in touch''" "''/contact-us''"]
  note b = name_argument_is_regexp
    [OF pg, of ecmascript_grammar static_page "''C++''" "[]"]
  from a have 1: "fst (step_link_points_to ecmascript_grammar static_page ''in touch''
      ''/contact-us'' ?s) = Inr ()"
    by blast
  from a ok have 2: "\<exists>v. fst (static_page
               (ExpectToHaveAttribute 2
                  (GetByRole ''link'' \<lparr>name = Some (RegExp ''in touch'' ''i''), exact = False\<rparr>)
                  ''href'' ''/contact-us'')
               header_right_side) = Inr v"
    unfolding en by blast
  from a ok have 3: "trace (snd (step_link_visible ecmascript_grammar static_page ''in touch''
                 ?s)) =
     [(ExpectToBeVisible 2
         (GetByRole ''link'' \<lparr>name = Some (RegExp ''in touch'' ''i''), exact = False\<rparr>),
       fst (static_page
              (ExpectToBeVisible 2
                 (GetByRole ''link'' \<lparr>name = Some (RegExp ''in touch'' ''i''), exact = False\<rparr>))
              header_right_side))]"
    unfolding en tr by simp
  from b bad have 4: "step_link_visible ecmascript_grammar static_page ''C++'' ?s =
     (Inl SyntaxError, ?s)"
    by blast
  from pg ok bad 1 2 3 4 show ?thesis
    by (intro conjI)
qed

section \<open>The screenshot of a failed scenario\<close>




section \<open>Release of the page and the context\<close>




section \<open>One worker, one browser, one context\<close>




end
